theory Spec2Isabelle
  imports Complex_Main "HOL-Library.Word"
begin

section \<open>Python values and exceptions\<close>

text \<open>
  The harness and its client are Python. An exception is a value: its class (only the
  classes the code distinguishes or raises itself are named) and the text that
  \<^verbatim>\<open>str(e)\<close> gives. Every exception of the model is an instance of
  \<^verbatim>\<open>Exception\<close>; asynchronous signals outside that class
  (\<^verbatim>\<open>KeyboardInterrupt\<close>, \<^verbatim>\<open>SystemExit\<close>) are not modelled.
\<close>

datatype exc_class =
  OSError | TimeoutError | StructError | ValueError | KeyError | TypeError
  | AttributeError | TimeoutExpired | NameError | RuntimeError

datatype py_exc = Exc (exc_cls: exc_class) (exc_text: string)

type_synonym byte = "8 word"

text \<open>
  What \<^verbatim>\<open>json.loads\<close> returns: \<^verbatim>\<open>None\<close>, a bool, an int, a float,
  a str, a list or a dict. A dict is an association list whose first binding of a key
  is the one in force.
\<close>

datatype json =
  JNull | JBool bool | JInt int | JFloat real | JStr string
  | JList "json list" | JObj "(string \<times> json) list"

text \<open>The two-field dictionary \<^verbatim>\<open>{'success': False, 'error': msg}\<close>.\<close>

definition failure :: "string \<Rightarrow> json" where
  "failure msg = JObj [(''success'', JBool False), (''error'', JStr msg)]"

section \<open>The socket\<close>

text \<open>
  A connected stream socket, as the client sees it. \<open>incoming\<close> is what the peer
  and the transport will deliver, in order: segments of bytes and transport faults
  (a timeout, a reset); when the list is exhausted the peer has closed the stream.
  \<open>sends\<close> is what the next calls of \<^verbatim>\<open>sendall\<close> will meet (\<open>None\<close>:
  the bytes are written; an empty list: every further send succeeds), and \<open>sent\<close>
  records the buffers written so far.
\<close>

datatype event = Chunk "byte list" | Fault py_exc

record conn =
  incoming :: "event list"
  sends :: "py_exc option list"
  sent :: "byte list list"

text \<open>
  \<^verbatim>\<open>sock.recv(k)\<close> blocks until a byte is there, the peer has closed or the
  transport fails: it returns at most \<open>k\<close> bytes of the first segment (leaving the
  rest of it for the next call), the empty bytes object at end of stream, or raises.
\<close>

fun recv :: "nat \<Rightarrow> event list \<Rightarrow> (py_exc + byte list) \<times> event list" where
  "recv k [] = (Inr [], [])"
| "recv k (Fault e # rest) = (Inl e, rest)"
| "recv k (Chunk bs # rest) =
     (if bs = [] then recv k rest
      else if length bs \<le> k then (Inr bs, rest)
      else (Inr (take k bs), Chunk (drop k bs) # rest))"

definition sendall :: "byte list \<Rightarrow> conn \<Rightarrow> py_exc option \<times> conn" where
  "sendall buf c =
     (case sends c of
        [] \<Rightarrow> (None, c\<lparr>sent := sent c @ [buf]\<rparr>)
      | None # later \<Rightarrow> (None, c\<lparr>sends := later, sent := sent c @ [buf]\<rparr>)
      | Some e # later \<Rightarrow> (Some e, c\<lparr>sends := later\<rparr>))"

section \<open>The wire format\<close>

text \<open>
  \<^verbatim>\<open>struct.pack('<I', n)\<close> and \<^verbatim>\<open>struct.unpack('<I', b)[0]\<close>: four bytes,
  least significant first. Packing raises \<^verbatim>\<open>struct.error\<close> outside the
  unsigned 32-bit range, unpacking on a buffer that is not four bytes long. \<open>quoted\<close>
  puts a text between single quotes.
\<close>

definition quoted :: "string \<Rightarrow> string" where
  "quoted k = [CHR 0x27] @ k @ [CHR 0x27]"

definition struct_pack_I :: "int \<Rightarrow> py_exc + byte list" where
  "struct_pack_I n =
     (if 0 \<le> n \<and> n < 2 ^ 32 then
        Inr [word_of_int n, word_of_int (n div 2 ^ 8),
             word_of_int (n div 2 ^ 16), word_of_int (n div 2 ^ 24)]
      else Inl (Exc StructError (quoted ''I'' @ '' format requires 0 <= number <= 4294967295'')))"

fun struct_unpack_I :: "byte list \<Rightarrow> py_exc + int" where
  "struct_unpack_I [b0, b1, b2, b3] =
     Inr (uint b0 + 2 ^ 8 * uint b1 + 2 ^ 16 * uint b2 + 2 ^ 24 * uint b3)"
| "struct_unpack_I bs = Inl (Exc StructError ''unpack requires a buffer of 4 bytes'')"

section \<open>IdasqlClient\<close>

record client =
  host :: string
  port :: int
  sock :: "conn option"

text \<open>\<^verbatim>\<open>__init__\<close>: no socket yet.\<close>

definition new_client :: "string \<Rightarrow> int \<Rightarrow> client" where
  "new_client h p = \<lparr>host = h, port = p, sock = None\<rparr>"

text \<open>
  \<^verbatim>\<open>connect\<close>. Creating the socket, setting its timeout and connecting are one
  attempt whose outcome the network decides: an established connection, or an
  exception. The handler resets \<open>sock\<close> and reports \<open>False\<close>.
\<close>

definition connect :: "py_exc + conn \<Rightarrow> client \<Rightarrow> bool \<times> client" where
  "connect attempt cl =
     (case attempt of
        Inr c \<Rightarrow> (True, cl\<lparr>sock := Some c\<rparr>)
      | Inl e \<Rightarrow> (False, cl\<lparr>sock := None\<rparr>))"

text \<open>\<^verbatim>\<open>disconnect\<close>: close (whatever closing raises is swallowed) and forget.\<close>

definition disconnect :: "client \<Rightarrow> client" where
  "disconnect cl = (case sock cl of None \<Rightarrow> cl | Some c \<Rightarrow> cl\<lparr>sock := None\<rparr>)"

text \<open>
  \<^verbatim>\<open>_recv_exact\<close>: the loop asks for the bytes still missing and stops at the
  first empty chunk. An exception of \<^verbatim>\<open>recv\<close> leaves the loop as it is raised.
\<close>

function recv_exact_loop ::
  "int \<Rightarrow> byte list \<Rightarrow> event list \<Rightarrow> (py_exc + byte list option) \<times> event list" where
  "recv_exact_loop n data inc =
     (if int (length data) < n then
        (case recv (nat (n - int (length data))) inc of
           (Inl e, inc') \<Rightarrow> (Inl e, inc')
         | (Inr chunk, inc') \<Rightarrow>
             if chunk = [] then (Inr None, inc')
             else recv_exact_loop n (data @ chunk) inc')
      else (Inr (Some data), inc))"
  by pat_completeness auto
termination
  by (relation "measure (\<lambda>(n, data, inc). nat (n - int (length data)))") auto

definition recv_exact :: "int \<Rightarrow> conn \<Rightarrow> (py_exc + byte list option) \<times> conn" where
  "recv_exact n c =
     (case recv_exact_loop n [] (incoming c) of (r, inc') \<Rightarrow> (r, c\<lparr>incoming := inc'\<rparr>))"

text \<open>
  \<^verbatim>\<open>query\<close>. The JSON codec is the standard library's and is a parameter:
  \<open>enc sql\<close> is \<^verbatim>\<open>json.dumps({'sql': sql}).encode('utf-8')\<close> and \<open>dec\<close> is
  \<^verbatim>\<open>json.loads(b.decode('utf-8'))\<close>, which raises on bytes that are not UTF-8
  or not JSON. \<open>query_body\<close> is the \<^verbatim>\<open>try\<close> block, \<open>query\<close> the method with
  its guard and its handler.
\<close>

definition response_limit :: int where
  "response_limit = 100 * 1024 * 1024"

definition query_payload ::
  "(byte list \<Rightarrow> py_exc + json) \<Rightarrow> int \<Rightarrow> conn \<Rightarrow> (py_exc + json) \<times> conn" where
  "query_payload dec resp_len c =
     (case recv_exact resp_len c of
        (Inl e, c') \<Rightarrow> (Inl e, c')
      | (Inr None, c') \<Rightarrow> (Inr (failure ''Connection closed''), c')
      | (Inr (Some resp_bytes), c') \<Rightarrow>
          (case dec resp_bytes of Inl e \<Rightarrow> (Inl e, c') | Inr j \<Rightarrow> (Inr j, c')))"

definition query_response ::
  "(byte list \<Rightarrow> py_exc + json) \<Rightarrow> conn \<Rightarrow> (py_exc + json) \<times> conn" where
  "query_response dec c =
     (case recv_exact 4 c of
        (Inl e, c') \<Rightarrow> (Inl e, c')
      | (Inr None, c') \<Rightarrow> (Inr (failure ''Connection closed''), c')
      | (Inr (Some len_bytes), c') \<Rightarrow>
          (case struct_unpack_I len_bytes of
             Inl e \<Rightarrow> (Inl e, c')
           | Inr resp_len \<Rightarrow>
               if resp_len > response_limit then (Inr (failure ''Response too large''), c')
               else query_payload dec resp_len c'))"

definition query_body ::
  "(string \<Rightarrow> byte list) \<Rightarrow> (byte list \<Rightarrow> py_exc + json) \<Rightarrow> string \<Rightarrow> conn
     \<Rightarrow> (py_exc + json) \<times> conn" where
  "query_body enc dec sql c =
     (let req_bytes = enc sql in
      case struct_pack_I (int (length req_bytes)) of
        Inl e \<Rightarrow> (Inl e, c)
      | Inr prefix \<Rightarrow>
          (case sendall (prefix @ req_bytes) c of
             (Some e, c') \<Rightarrow> (Inl e, c')
           | (None, c') \<Rightarrow> query_response dec c'))"

definition query ::
  "(string \<Rightarrow> byte list) \<Rightarrow> (byte list \<Rightarrow> py_exc + json) \<Rightarrow> string \<Rightarrow> client
     \<Rightarrow> json \<times> client" where
  "query enc dec sql cl =
     (case sock cl of
        None \<Rightarrow> (failure ''Not connected'', cl)
      | Some c \<Rightarrow>
          (case query_body enc dec sql c of
             (Inl e, c') \<Rightarrow> (failure (exc_text e), cl\<lparr>sock := Some c'\<rparr>)
           | (Inr j, c') \<Rightarrow> (j, cl\<lparr>sock := Some c'\<rparr>)))"

section \<open>Python operations the test predicates use\<close>

text \<open>
  Strings are lists of 8-bit characters. \<open>py_contains a b\<close> is \<^verbatim>\<open>a in b\<close> on two
  strings (substring search), \<open>lower\<close> is \<^verbatim>\<open>str.lower\<close> (an upper-case letter
  moves up by 32, which sets the bit of value 32 in its code), \<open>strip\<close> is
  \<^verbatim>\<open>str.strip\<close> and \<open>join\<close> is \<^verbatim>\<open>sep.join\<close>.
\<close>

fun starts_with :: "string \<Rightarrow> string \<Rightarrow> bool" where
  "starts_with [] s = True"
| "starts_with (a # as) [] = False"
| "starts_with (a # as) (b # bs) = (a = b \<and> starts_with as bs)"

fun py_contains :: "string \<Rightarrow> string \<Rightarrow> bool" where
  "py_contains needle [] = (needle = [])"
| "py_contains needle (c # cs) = (starts_with needle (c # cs) \<or> py_contains needle cs)"

definition lower_char :: "char \<Rightarrow> char" where
  "lower_char c =
     (let n = (of_char c :: nat) in
      if (65 \<le> n \<and> n \<le> 90) \<or> (192 \<le> n \<and> n \<le> 214) \<or> (216 \<le> n \<and> n \<le> 222)
      then (case c of Char b0 b1 b2 b3 b4 b5 b6 b7 \<Rightarrow> Char b0 b1 b2 b3 b4 True b6 b7)
      else c)"

definition lower :: "string \<Rightarrow> string" where
  "lower s = map lower_char s"

definition is_space :: "char \<Rightarrow> bool" where
  "is_space c =
     (let n = (of_char c :: nat) in
      (9 \<le> n \<and> n \<le> 13) \<or> (28 \<le> n \<and> n \<le> 32) \<or> n = 133 \<or> n = 160)"

definition strip :: "string \<Rightarrow> string" where
  "strip s = rev (dropWhile is_space (rev (dropWhile is_space s)))"

fun join :: "string \<Rightarrow> string list \<Rightarrow> string" where
  "join sep [] = []"
| "join sep [x] = x"
| "join sep (x # y # ys) = x @ sep @ join sep (y # ys)"

definition newline :: string where
  "newline = [CHR 0x0A]"

text \<open>
  Truth value testing, subscription with a string key, \<^verbatim>\<open>len\<close>, the
  \<^verbatim>\<open>in\<close> operator with a string on the left, and \<^verbatim>\<open>dict.get\<close> with a
  default, on the values \<^verbatim>\<open>json.loads\<close> produces. \<^verbatim>\<open>str(KeyError(k))\<close> is
  the key in quotes.
\<close>

fun truthy :: "json \<Rightarrow> bool" where
  "truthy JNull = False"
| "truthy (JBool b) = b"
| "truthy (JInt i) = (i \<noteq> 0)"
| "truthy (JFloat x) = (x \<noteq> 0)"
| "truthy (JStr s) = (s \<noteq> [])"
| "truthy (JList xs) = (xs \<noteq> [])"
| "truthy (JObj kvs) = (kvs \<noteq> [])"

fun getitem :: "json \<Rightarrow> string \<Rightarrow> py_exc + json" where
  "getitem (JObj kvs) k =
     (case map_of kvs k of Some v \<Rightarrow> Inr v | None \<Rightarrow> Inl (Exc KeyError (quoted k)))"
| "getitem (JList xs) k = Inl (Exc TypeError ''list indices must be integers or slices, not str'')"
| "getitem (JStr s) k = Inl (Exc TypeError ''string indices must be integers'')"
| "getitem v k = Inl (Exc TypeError ''object is not subscriptable'')"

fun py_len :: "json \<Rightarrow> py_exc + int" where
  "py_len (JStr s) = Inr (int (length s))"
| "py_len (JList xs) = Inr (int (length xs))"
| "py_len (JObj kvs) = Inr (int (length kvs))"
| "py_len v = Inl (Exc TypeError ''object has no len()'')"

fun py_in :: "string \<Rightarrow> json \<Rightarrow> py_exc + bool" where
  "py_in k (JObj kvs) = Inr (k \<in> set (map fst kvs))"
| "py_in k (JList xs) = Inr (JStr k \<in> set xs)"
| "py_in k (JStr s) = Inr (py_contains k s)"
| "py_in k v = Inl (Exc TypeError ''argument is not iterable'')"

fun dict_get :: "json \<Rightarrow> string \<Rightarrow> json \<Rightarrow> py_exc + json" where
  "dict_get (JObj kvs) k dflt = (case map_of kvs k of Some v \<Rightarrow> Inr v | None \<Rightarrow> Inr dflt)"
| "dict_get v k dflt = Inl (Exc AttributeError ''object has no attribute get'')"

section \<open>What the harness does to the outside world\<close>

text \<open>
  The observable actions of a run, in the order they happen: lines printed, child
  processes run to completion, the server process spawned, polled, terminated, killed
  and reaped, connection attempts, and each remote case's query.
\<close>

datatype cmake_step =
  PluginConfigure | PluginBuild | DriverConfigure | DriverBuild | CliConfigure | CliBuild

datatype cli_call = CliQuery string | CliInteractive string

datatype action =
  Log string
  | Print string
  | PrintResults string nat nat
  | PrintTotal nat nat
  | PrintDriverOutput string
  | RunCmake cmake_step
  | Copy string
  | RunCli string
  | Popen
  | Poll bool
  | ReadOutput string
  | ProbeConnect bool
  | Sleep
  | RemoteConnect bool
  | RemoteCase string
  | RemoteDisconnect
  | Terminate
  | WaitTimedOut
  | Kill
  | Reaped

text \<open>
  The environment of one run: the command line and the process environment, what each
  child process does, what the server does, and the standard library's JSON codec.
  \<open>plugin_files\<close> is the plugin binaries that the three globs of \<^verbatim>\<open>build_all\<close>
  find, in order, each with what copying it raises, if anything.
  \<open>exited_at i\<close> is whether the \<open>i\<close>-th poll of the readiness probe finds the server
  gone, \<open>probe_attempt i\<close> the outcome of the \<open>i\<close>-th probe connection and
  \<open>probe_ms i\<close> the milliseconds that iteration takes beyond its half-second sleep.

  Printing a line and reading what is left in the pipe of the server process are taken
  to succeed: a console that cannot be written to and output that cannot be decoded are
  not part of this environment, and the source has no handler for either.
\<close>

record world =
  idasdk_set :: bool
  test_db_exists :: bool
  skip_build :: bool
  cmake :: "cmake_step \<Rightarrow> py_exc + (int \<times> string)"
  plugin_files :: "(string \<times> py_exc option) list"
  cli_exists :: bool
  cli :: "cli_call \<Rightarrow> py_exc + (string \<times> int)"
  driver_exists :: bool
  popen :: "py_exc option"
  driver_output :: string
  exited_at :: "nat \<Rightarrow> bool"
  probe_attempt :: "nat \<Rightarrow> py_exc + conn"
  probe_ms :: "nat \<Rightarrow> nat"
  remote_attempt :: "py_exc + conn"
  stops_on_terminate :: bool
  json_dumps :: "string \<Rightarrow> byte list"
  json_loads :: "byte list \<Rightarrow> py_exc + json"

section \<open>run\_basic\_tests\<close>

text \<open>
  A remote case: its name, its SQL and its predicate on the response. The predicate is
  Python: it can raise, and what it returns is tested for truth.
\<close>

record remote_test =
  rt_name :: string
  rt_sql :: string
  rt_check :: "json \<Rightarrow> py_exc + json"

record basic_result =
  br_name :: string
  br_sql :: string
  br_passed :: json
  br_result :: json

text \<open>\<^verbatim>\<open>r['success'] and len(r['rows']) == 1\<close>\<close>

definition check_one_row :: "json \<Rightarrow> py_exc + json" where
  "check_one_row r =
     (case getitem r ''success'' of
        Inl e \<Rightarrow> Inl e
      | Inr s \<Rightarrow>
          if truthy s then
            (case getitem r ''rows'' of
               Inl e \<Rightarrow> Inl e
             | Inr rows \<Rightarrow>
                 (case py_len rows of Inl e \<Rightarrow> Inl e | Inr n \<Rightarrow> Inr (JBool (n = 1))))
          else Inr s)"

text \<open>\<^verbatim>\<open>r['success'] and 'name' in r['columns']\<close>\<close>

definition check_name_column :: "json \<Rightarrow> py_exc + json" where
  "check_name_column r =
     (case getitem r ''success'' of
        Inl e \<Rightarrow> Inl e
      | Inr s \<Rightarrow>
          if truthy s then
            (case getitem r ''columns'' of
               Inl e \<Rightarrow> Inl e
             | Inr cols \<Rightarrow>
                 (case py_in ''name'' cols of Inl e \<Rightarrow> Inl e | Inr b \<Rightarrow> Inr (JBool b)))
          else Inr s)"

text \<open>\<^verbatim>\<open>r['success']\<close>\<close>

definition check_success :: "json \<Rightarrow> py_exc + json" where
  "check_success r = getitem r ''success''"

text \<open>\<^verbatim>\<open>not r['success'] and 'error' in r\<close>\<close>

definition check_error :: "json \<Rightarrow> py_exc + json" where
  "check_error r =
     (case getitem r ''success'' of
        Inl e \<Rightarrow> Inl e
      | Inr s \<Rightarrow>
          if \<not> truthy s then
            (case py_in ''error'' r of Inl e \<Rightarrow> Inl e | Inr b \<Rightarrow> Inr (JBool b))
          else Inr (JBool False))"

definition basic_tests :: "remote_test list" where
  "basic_tests =
     [\<lparr>rt_name = ''count_funcs'', rt_sql = ''SELECT COUNT(*) as count FROM funcs'',
       rt_check = check_one_row\<rparr>,
      \<lparr>rt_name = ''list_funcs'', rt_sql = ''SELECT name, address, size FROM funcs LIMIT 5'',
       rt_check = check_name_column\<rparr>,
      \<lparr>rt_name = ''list_segments'', rt_sql = ''SELECT name, start_ea, end_ea FROM segments'',
       rt_check = check_success\<rparr>,
      \<lparr>rt_name = ''list_names'', rt_sql = ''SELECT address, name FROM names LIMIT 10'',
       rt_check = check_success\<rparr>,
      \<lparr>rt_name = ''invalid_table'', rt_sql = ''SELECT * FROM nonexistent_table'',
       rt_check = check_error\<rparr>,
      \<lparr>rt_name = ''syntax_error'', rt_sql = ''SELECTT * FROM funcs'',
       rt_check = check_error\<rparr>]"

text \<open>
  The loop of \<^verbatim>\<open>run_basic_tests\<close>: query, evaluate the predicate, append. Nothing
  here handles an exception of the predicate: it leaves the loop and the function.
\<close>

fun run_basic_loop ::
  "(string \<Rightarrow> byte list) \<Rightarrow> (byte list \<Rightarrow> py_exc + json) \<Rightarrow> remote_test list \<Rightarrow> client
     \<Rightarrow> ((py_exc + basic_result list) \<times> client) \<times> action list" where
  "run_basic_loop enc dec [] cl = ((Inr [], cl), [])"
| "run_basic_loop enc dec (t # ts) cl =
     (case query enc dec (rt_sql t) cl of
        (result, cl') \<Rightarrow>
          (case rt_check t result of
             Inl e \<Rightarrow> ((Inl e, cl'), [RemoteCase (rt_name t)])
           | Inr p \<Rightarrow>
               (case run_basic_loop enc dec ts cl' of
                  ((Inl e, cl''), acts) \<Rightarrow> ((Inl e, cl''), RemoteCase (rt_name t) # acts)
                | ((Inr rs, cl''), acts) \<Rightarrow>
                    ((Inr (\<lparr>br_name = rt_name t, br_sql = rt_sql t, br_passed = p,
                            br_result = result\<rparr> # rs), cl''),
                     RemoteCase (rt_name t) # acts))))"

definition run_basic_tests ::
  "(string \<Rightarrow> byte list) \<Rightarrow> (byte list \<Rightarrow> py_exc + json) \<Rightarrow> client
     \<Rightarrow> ((py_exc + basic_result list) \<times> client) \<times> action list" where
  "run_basic_tests enc dec cl = run_basic_loop enc dec basic_tests cl"

section \<open>The local cases\<close>

text \<open>
  A local case is a dictionary: a name, a mode, the SQL (single-query mode) or the
  lines to type (interactive mode), and a predicate on the combined output and the exit
  code. A result is a dictionary too; the keys a result does not have are \<open>None\<close>.
\<close>

record local_test =
  lt_name :: string
  lt_mode :: string
  lt_sql :: "string option"
  lt_commands :: "string list option"
  lt_check :: "string \<Rightarrow> int \<Rightarrow> py_exc + json"

record test_result =
  tr_name :: string
  tr_passed :: json
  tr_output :: "string option"
  tr_returncode :: "int option"
  tr_error :: "json option"
  tr_sql :: "string option"

definition define_cli_local_tests :: "local_test list" where
  "define_cli_local_tests =
     [\<lparr>lt_name = ''cli_local_count_funcs'', lt_mode = ''query'',
       lt_sql = Some ''SELECT COUNT(*) as count FROM funcs'', lt_commands = None,
       lt_check = (\<lambda>out rc. Inr (JBool (rc = 0 \<and> py_contains ''count'' out \<and>
                                         py_contains ''row(s)'' out)))\<rparr>,
      \<lparr>lt_name = ''cli_local_list_funcs'', lt_mode = ''query'',
       lt_sql = Some ''SELECT name, address FROM funcs LIMIT 3'', lt_commands = None,
       lt_check = (\<lambda>out rc. Inr (JBool (rc = 0 \<and> py_contains ''name'' out \<and>
                                         py_contains ''address'' out \<and>
                                         py_contains ''3 row(s)'' out)))\<rparr>,
      \<lparr>lt_name = ''cli_local_list_segments'', lt_mode = ''query'',
       lt_sql = Some ''SELECT name, start_ea FROM segments'', lt_commands = None,
       lt_check = (\<lambda>out rc. Inr (JBool (rc = 0 \<and> py_contains ''name'' out)))\<rparr>,
      \<lparr>lt_name = ''cli_local_invalid_table'', lt_mode = ''query'',
       lt_sql = Some ''SELECT * FROM nonexistent_table'', lt_commands = None,
       lt_check = (\<lambda>out rc. Inr (JBool (rc \<noteq> 0 \<and> py_contains ''error'' (lower out))))\<rparr>,
      \<lparr>lt_name = ''cli_local_syntax_error'', lt_mode = ''query'',
       lt_sql = Some ''SELECTT * FROM funcs'', lt_commands = None,
       lt_check = (\<lambda>out rc. Inr (JBool (rc \<noteq> 0 \<and> py_contains ''error'' (lower out))))\<rparr>,
      \<lparr>lt_name = ''cli_interactive_tables'', lt_mode = ''interactive'',
       lt_sql = None, lt_commands = Some [''.tables'', ''.quit''],
       lt_check = (\<lambda>out rc. Inr (JBool (rc = 0 \<and> py_contains ''funcs'' out \<and>
                                         py_contains ''segments'' out)))\<rparr>,
      \<lparr>lt_name = ''cli_interactive_query'', lt_mode = ''interactive'',
       lt_sql = None, lt_commands = Some [''SELECT COUNT(*) as cnt FROM funcs;'', ''.quit''],
       lt_check = (\<lambda>out rc. Inr (JBool (rc = 0 \<and> py_contains ''cnt'' out)))\<rparr>]"

text \<open>The two handlers of the loop body: a timeout of the child, any other exception.\<close>

definition handle_local :: "string \<Rightarrow> py_exc \<Rightarrow> test_result" where
  "handle_local nm e =
     \<lparr>tr_name = nm, tr_passed = JBool False, tr_output = None, tr_returncode = None,
      tr_error = Some (JStr (if exc_cls e = TimeoutExpired then ''Timeout'' else exc_text e)),
      tr_sql = None\<rparr>"

definition local_result :: "string \<Rightarrow> json \<Rightarrow> string \<Rightarrow> int \<Rightarrow> test_result" where
  "local_result nm p out rc =
     \<lparr>tr_name = nm, tr_passed = p,
      tr_output = Some (if \<not> truthy p then take 500 out else []),
      tr_returncode = Some rc, tr_error = None, tr_sql = None\<rparr>"

text \<open>
  One child process and its predicate. The child's outcome is the environment's: its
  combined output and exit code, or an exception (the 60 second timeout among them).
\<close>

definition run_and_check ::
  "world \<Rightarrow> local_test \<Rightarrow> cli_call \<Rightarrow> int option \<Rightarrow> test_result \<times> int option" where
  "run_and_check w t call prev =
     (case cli w call of
        Inl e \<Rightarrow> (handle_local (lt_name t) e, prev)
      | Inr (out, rc) \<Rightarrow>
          (case lt_check t out rc of
             Inl e \<Rightarrow> (handle_local (lt_name t) e, Some rc)
           | Inr p \<Rightarrow> (local_result (lt_name t) p out rc, Some rc)))"

text \<open>
  One iteration of the loop of \<^verbatim>\<open>run_cli_local_tests\<close>. \<open>prev\<close> is the exit code
  held by the variable \<^verbatim>\<open>result\<close> from an earlier iteration, if one assigned it:
  the branch for an unknown mode reads it.
\<close>

definition run_local_case ::
  "world \<Rightarrow> local_test \<Rightarrow> int option \<Rightarrow> (test_result \<times> int option) \<times> action list" where
  "run_local_case w t prev =
     (if lt_mode t = ''query'' then
        (case lt_sql t of
           None \<Rightarrow> ((handle_local (lt_name t) (Exc KeyError (quoted ''sql'')), prev), [])
         | Some q \<Rightarrow> (run_and_check w t (CliQuery q) prev, [RunCli (lt_name t)]))
      else if lt_mode t = ''interactive'' then
        (case lt_commands t of
           None \<Rightarrow> ((handle_local (lt_name t) (Exc KeyError (quoted ''commands'')), prev), [])
         | Some cmds \<Rightarrow>
             (run_and_check w t (CliInteractive (join newline cmds @ newline)) prev,
              [RunCli (lt_name t)]))
      else
        (case prev of
           None \<Rightarrow>
             ((handle_local (lt_name t)
                 (Exc NameError ''local variable result referenced before assignment''),
               prev), [])
         | Some rc \<Rightarrow>
             ((local_result (lt_name t) (JBool False) (''Unknown mode: '' @ lt_mode t) rc,
               prev), [])))"

fun cli_local_loop ::
  "world \<Rightarrow> local_test list \<Rightarrow> int option \<Rightarrow> test_result list \<times> action list" where
  "cli_local_loop w [] prev = ([], [])"
| "cli_local_loop w (t # ts) prev =
     (case run_local_case w t prev of
        ((r, prev'), acts) \<Rightarrow>
          (case cli_local_loop w ts prev' of (rs, acts') \<Rightarrow> (r # rs, acts @ acts')))"

definition run_cli_local_tests :: "world \<Rightarrow> test_result list \<times> action list" where
  "run_cli_local_tests w =
     (if \<not> cli_exists w then
        ([\<lparr>tr_name = ''cli_not_found'', tr_passed = JBool False, tr_output = None,
           tr_returncode = None, tr_error = Some (JStr ''CLI executable not found''),
           tr_sql = None\<rparr>],
         [Log ''Running CLI local mode tests...'', Log ''CLI not found''])
      else
        (case cli_local_loop w define_cli_local_tests None of
           (rs, acts) \<Rightarrow> (rs, Log ''Running CLI local mode tests...'' # acts)))"

section \<open>Building\<close>

text \<open>
  Messages are modelled without the paths they mention. The environment that
  \<^verbatim>\<open>get_cli_env\<close> prepares for a child is part of what decides the child's outcome,
  which is the environment's here.
\<close>

text \<open>
  \<^verbatim>\<open>run_cmake\<close> and \<^verbatim>\<open>build_cli\<close> are the same two steps with different
  messages: configure, then build; a non-zero exit code of either is \<open>False\<close>. An
  exception of \<^verbatim>\<open>subprocess.run\<close> (no cmake on the path) is not handled here.
\<close>

definition configure_and_build ::
  "world \<Rightarrow> string \<Rightarrow> string \<Rightarrow> cmake_step \<Rightarrow> cmake_step \<Rightarrow> (py_exc + bool) \<times> action list" where
  "configure_and_build w start tool conf bld =
     (case cmake w conf of
        Inl e \<Rightarrow> (Inl e, [Log start, RunCmake conf])
      | Inr (rc, err) \<Rightarrow>
          if rc \<noteq> 0 then
            (Inr False, [Log start, RunCmake conf,
                         Log (tool @ '' configure failed:'' @ newline @ err)])
          else
            (case cmake w bld of
               Inl e \<Rightarrow> (Inl e, [Log start, RunCmake conf, RunCmake bld])
             | Inr (rc', err') \<Rightarrow>
                 if rc' \<noteq> 0 then
                   (Inr False, [Log start, RunCmake conf, RunCmake bld,
                                Log (tool @ '' build failed:'' @ newline @ err')])
                 else (Inr True, [Log start, RunCmake conf, RunCmake bld])))"

definition run_cmake ::
  "world \<Rightarrow> string \<Rightarrow> cmake_step \<Rightarrow> cmake_step \<Rightarrow> (py_exc + bool) \<times> action list" where
  "run_cmake w dir conf bld =
     configure_and_build w (''Building '' @ dir @ ''...'') ''CMake'' conf bld"

definition build_cli :: "world \<Rightarrow> (py_exc + bool) \<times> action list" where
  "build_cli w = configure_and_build w ''Building CLI...'' ''CLI'' CliConfigure CliBuild"

text \<open>Each plugin binary found is logged and copied; a copy that raises ends the build.\<close>

fun copy_plugins :: "(string \<times> py_exc option) list \<Rightarrow> py_exc option \<times> action list" where
  "copy_plugins [] = (None, [])"
| "copy_plugins ((n, outcome) # rest) =
     (case outcome of
        Some e \<Rightarrow> (Some e, [Log (''Copying '' @ n), Copy n])
      | None \<Rightarrow>
          (case copy_plugins rest of
             (r, acts) \<Rightarrow> (r, Log (''Copying '' @ n) # Copy n # acts)))"

definition build_all :: "world \<Rightarrow> (py_exc + bool) \<times> action list" where
  "build_all w =
     (if skip_build w then (Inr True, [Log ''Skipping build (--skip-build)''])
      else
        (case run_cmake w ''plugin'' PluginConfigure PluginBuild of
           (Inl e, a1) \<Rightarrow> (Inl e, a1)
         | (Inr False, a1) \<Rightarrow> (Inr False, a1)
         | (Inr True, a1) \<Rightarrow>
             (case copy_plugins (plugin_files w) of
                (Some e, a2) \<Rightarrow> (Inl e, a1 @ a2)
              | (None, a2) \<Rightarrow>
                  (case run_cmake w ''test'' DriverConfigure DriverBuild of
                     (Inl e, a3) \<Rightarrow> (Inl e, a1 @ a2 @ a3)
                   | (Inr False, a3) \<Rightarrow> (Inr False, a1 @ a2 @ a3)
                   | (Inr True, a3) \<Rightarrow>
                       (case build_cli w of
                          (Inl e, a4) \<Rightarrow> (Inl e, a1 @ a2 @ a3 @ a4)
                        | (Inr False, a4) \<Rightarrow> (Inr False, a1 @ a2 @ a3 @ a4)
                        | (Inr True, a4) \<Rightarrow> (Inr True, a1 @ a2 @ a3 @ a4))))))"

section \<open>The server process\<close>

text \<open>
  The \<^verbatim>\<open>Popen\<close> object the harness holds: whether the process is known to have
  exited, and the output of its pipe that nobody has read yet.
\<close>

record proc =
  exited :: bool
  unread :: string

record harness =
  driver_process :: "proc option"

definition new_harness :: harness where
  "new_harness = \<lparr>driver_process = None\<rparr>"

definition probe_timeout :: nat where
  "probe_timeout = 30000"

text \<open>
  The readiness probe. The action \<open>Popen\<close> stands for a process that was spawned;
  when \<^verbatim>\<open>subprocess.Popen\<close> raises there is none. \<open>now\<close> is
  \<^verbatim>\<open>time.time() - start_time\<close> in milliseconds, \<open>i\<close> counts the iterations. An
  iteration that neither fails nor succeeds sleeps half a second (at least: what it
  takes beyond that is the environment's).
\<close>

function probe_loop ::
  "world \<Rightarrow> nat \<Rightarrow> nat \<Rightarrow> proc \<Rightarrow> (bool \<times> proc) \<times> action list" where
  "probe_loop w i now p =
     (if now < probe_timeout then
        (if exited_at w i then
           ((False, p\<lparr>exited := True, unread := []\<rparr>),
            [Poll True, ReadOutput (unread p),
             Log (''Driver exited unexpectedly:'' @ newline @ unread p)])
         else
           (case connect (probe_attempt w i) (new_client ''localhost'' 13337) of
              (True, cl) \<Rightarrow>
                (case disconnect cl of cl' \<Rightarrow>
                   ((True, p), [Poll False, ProbeConnect True, Log ''Server is ready.'']))
            | (False, cl) \<Rightarrow>
                (case probe_loop w (Suc i) (now + probe_ms w i + 500) p of
                   (r, acts) \<Rightarrow> (r, [Poll False, ProbeConnect False, Sleep] @ acts))))
      else ((False, p), [Log ''Timeout waiting for server'']))"
  by pat_completeness auto
termination
  by (relation "measure (\<lambda>(w, i, now, p). probe_timeout - now)") auto

definition start_driver :: "world \<Rightarrow> harness \<Rightarrow> ((py_exc + bool) \<times> harness) \<times> action list" where
  "start_driver w h =
     (if \<not> driver_exists w then
        ((Inr False, h), [Log ''Starting driver...'', Log ''Driver not found''])
      else
        (case popen w of
           Some e \<Rightarrow> ((Inl e, h), [Log ''Starting driver...''])
         | None \<Rightarrow>
             (case probe_loop w 0 0 \<lparr>exited = False, unread = driver_output w\<rparr> of
                ((ok, p), acts) \<Rightarrow>
                  ((Inr ok, h\<lparr>driver_process := Some p\<rparr>),
                   [Log ''Starting driver...'', Popen, Log ''Waiting for server to start...'']
                   @ acts))))"

text \<open>
  \<^verbatim>\<open>stop_driver\<close>: terminate, wait five seconds, kill and wait if that was not
  enough; then read what is left of the output and print it unless it is blank.
\<close>

definition stop_driver :: "world \<Rightarrow> harness \<Rightarrow> harness \<times> action list" where
  "stop_driver w h =
     (case driver_process h of
        None \<Rightarrow> (h, [])
      | Some p \<Rightarrow>
          (h\<lparr>driver_process := None\<rparr>,
           [Log ''Stopping driver...'', Terminate]
           @ (if exited p \<or> stops_on_terminate w then [Reaped]
              else [WaitTimedOut, Kill, Reaped])
           @ [ReadOutput (unread p)]
           @ (if strip (unread p) \<noteq> [] then [PrintDriverOutput (unread p)] else [])))"

section \<open>The remote cases\<close>

text \<open>The list comprehension of \<^verbatim>\<open>run_remote_tests\<close>, one result at a time.\<close>

definition convert_result :: "basic_result \<Rightarrow> py_exc + test_result" where
  "convert_result r =
     (if \<not> truthy (br_passed r) then
        (case dict_get (br_result r) ''error'' (JStr []) of
           Inl e \<Rightarrow> Inl e
         | Inr err \<Rightarrow>
             Inr \<lparr>tr_name = ''cli_remote_'' @ br_name r, tr_passed = br_passed r,
                  tr_output = None, tr_returncode = None, tr_error = Some err,
                  tr_sql = Some (br_sql r)\<rparr>)
      else
        Inr \<lparr>tr_name = ''cli_remote_'' @ br_name r, tr_passed = br_passed r,
             tr_output = None, tr_returncode = None, tr_error = Some (JStr []),
             tr_sql = Some (br_sql r)\<rparr>)"

fun convert_results :: "basic_result list \<Rightarrow> py_exc + test_result list" where
  "convert_results [] = Inr []"
| "convert_results (r # rs) =
     (case convert_result r of
        Inl e \<Rightarrow> Inl e
      | Inr t \<Rightarrow> (case convert_results rs of Inl e \<Rightarrow> Inl e | Inr ts \<Rightarrow> Inr (t # ts)))"

definition run_remote_tests :: "world \<Rightarrow> (py_exc + test_result list) \<times> action list" where
  "run_remote_tests w =
     (case connect (remote_attempt w) (new_client ''localhost'' 13337) of
        (False, cl) \<Rightarrow>
          (Inr [\<lparr>tr_name = ''remote_connect'', tr_passed = JBool False, tr_output = None,
                 tr_returncode = None, tr_error = Some (JStr ''Failed to connect''),
                 tr_sql = None\<rparr>],
           [Log ''Running CLI remote mode tests...'', RemoteConnect False,
            Log ''Failed to connect to server''])
      | (True, cl) \<Rightarrow>
          (case run_basic_tests (json_dumps w) (json_loads w) cl of
             ((Inl e, cl'), acts) \<Rightarrow>
               (Inl e, [Log ''Running CLI remote mode tests...'', RemoteConnect True] @ acts)
           | ((Inr results, cl'), acts) \<Rightarrow>
               (case disconnect cl' of cl'' \<Rightarrow>
                  (convert_results results,
                   [Log ''Running CLI remote mode tests...'', RemoteConnect True] @ acts
                   @ [RemoteDisconnect]))))"

section \<open>The run\<close>

text \<open>
  \<^verbatim>\<open>print_results\<close> prints a block and counts: a result passes when its
  \<^verbatim>\<open>passed\<close> entry is true in Python's sense.
\<close>

definition print_results :: "test_result list \<Rightarrow> string \<Rightarrow> (nat \<times> nat) \<times> action list" where
  "print_results results title =
     (let p = length (filter (\<lambda>r. truthy (tr_passed r)) results);
          f = length (filter (\<lambda>r. \<not> truthy (tr_passed r)) results)
      in ((p, f), [PrintResults title p f]))"

text \<open>
  \<open>run_body\<close> is the \<^verbatim>\<open>try\<close> block of \<^verbatim>\<open>run\<close>; \<open>run\<close> adds the
  \<^verbatim>\<open>finally\<close> clause, which runs whether the block returned or raised.
\<close>

definition run_body :: "world \<Rightarrow> harness \<Rightarrow> ((py_exc + int) \<times> harness) \<times> action list" where
  "run_body w h =
     (case build_all w of
        (Inl e, a1) \<Rightarrow> ((Inl e, h), a1)
      | (Inr False, a1) \<Rightarrow> ((Inr 2, h), a1)
      | (Inr True, a1) \<Rightarrow>
          (case run_cli_local_tests w of
             (local_results, a2) \<Rightarrow>
               (case print_results local_results ''CLI LOCAL MODE TESTS (Modes 1 & 2)'' of
                  ((p1, f1), a3) \<Rightarrow>
                    (case start_driver w h of
                       ((Inl e, h'), a4) \<Rightarrow> ((Inl e, h'), a1 @ a2 @ a3 @ a4)
                     | ((Inr False, h'), a4) \<Rightarrow> ((Inr 3, h'), a1 @ a2 @ a3 @ a4)
                     | ((Inr True, h'), a4) \<Rightarrow>
                         (case run_remote_tests w of
                            (Inl e, a5) \<Rightarrow> ((Inl e, h'), a1 @ a2 @ a3 @ a4 @ a5)
                          | (Inr remote_results, a5) \<Rightarrow>
                              (case print_results remote_results
                                      ''CLI REMOTE MODE TESTS (Mode 3)'' of
                                 ((p2, f2), a6) \<Rightarrow>
                                   ((Inr (if f1 + f2 = 0 then 0 else 1), h'),
                                    a1 @ a2 @ a3 @ a4 @ a5 @ a6
                                    @ [PrintTotal (p1 + p2) (f1 + f2)])))))))"

definition run :: "world \<Rightarrow> harness \<Rightarrow> ((py_exc + int) \<times> harness) \<times> action list" where
  "run w h =
     (case run_body w h of
        ((r, h'), acts) \<Rightarrow>
          (case stop_driver w h' of (h'', acts') \<Rightarrow> ((r, h''), acts @ acts')))"

text \<open>
  \<^verbatim>\<open>main\<close>: the constructor raises when the SDK variable is unset or the test
  database is missing; the exit code is what \<^verbatim>\<open>run\<close> returns, or 1 when an
  exception reaches the handler.
\<close>

definition main :: "world \<Rightarrow> int \<times> action list" where
  "main w =
     (if \<not> idasdk_set w then (1, [Print ''Error: IDASDK environment variable not set''])
      else if \<not> test_db_exists w then (1, [Print ''Error: Test database not found''])
      else
        (case run w new_harness of
           ((Inl e, h), acts) \<Rightarrow> (1, acts @ [Print (''Error: '' @ exc_text e)])
         | ((Inr code, h), acts) \<Rightarrow> (code, acts)))"

section \<open>Vocabulary for the statements\<close>

text \<open>
  What a connection will deliver before anything goes wrong: \<open>avail\<close> is the bytes
  of the segments ahead of the first fault, \<open>first_fault\<close> that fault (\<open>None\<close>:
  the stream ends with the peer closing it), \<open>after_fault\<close> what follows it.
\<close>

fun avail :: "event list \<Rightarrow> byte list" where
  "avail [] = []"
| "avail (Fault e # rest) = []"
| "avail (Chunk bs # rest) = bs @ avail rest"

fun first_fault :: "event list \<Rightarrow> py_exc option" where
  "first_fault [] = None"
| "first_fault (Fault e # rest) = Some e"
| "first_fault (Chunk bs # rest) = first_fault rest"

fun after_fault :: "event list \<Rightarrow> event list" where
  "after_fault [] = []"
| "after_fault (Fault e # rest) = rest"
| "after_fault (Chunk bs # rest) = after_fault rest"

text \<open>
  The next send: \<open>send_fault\<close> is the exception it will raise, if any;
  \<open>after_send buf\<close> is the connection once \<open>buf\<close> has been written; \<open>frame\<close>
  is a payload behind its length prefix.
\<close>

definition send_fault :: "conn \<Rightarrow> py_exc option" where
  "send_fault c = (case sends c of Some e # later \<Rightarrow> Some e | _ \<Rightarrow> None)"

definition after_send :: "byte list \<Rightarrow> conn \<Rightarrow> conn" where
  "after_send buf c = c\<lparr>sends := tl (sends c), sent := sent c @ [buf]\<rparr>"

definition frame :: "byte list \<Rightarrow> byte list" where
  "frame payload =
     (case struct_pack_I (int (length payload)) of Inr prefix \<Rightarrow> prefix @ payload | Inl e \<Rightarrow> [])"

text \<open>
  The operations a caller can apply to a client, with the network's answer to a
  connection attempt. \<open>expect_live\<close> follows the words of the invariant: the socket
  is live after a successful connect, gone after a failed connect or a disconnect, and
  a query leaves it as it was.
\<close>

datatype client_op = Connect "py_exc + conn" | Disconnect | Query string

fun client_step ::
  "(string \<Rightarrow> byte list) \<Rightarrow> (byte list \<Rightarrow> py_exc + json) \<Rightarrow> client \<Rightarrow> client_op \<Rightarrow> client" where
  "client_step enc dec cl (Connect attempt) = snd (connect attempt cl)"
| "client_step enc dec cl Disconnect = disconnect cl"
| "client_step enc dec cl (Query q) = snd (query enc dec q cl)"

fun expect_live :: "bool \<Rightarrow> client_op \<Rightarrow> bool" where
  "expect_live b (Connect (Inr c)) = True"
| "expect_live b (Connect (Inl e)) = False"
| "expect_live b Disconnect = False"
| "expect_live b (Query q) = b"

section \<open>Concrete environments\<close>

text \<open>
  Small connections and a toy codec for trying the client: the encoder sends nothing
  but the prefix, the decoder returns the payload's bytes as a list of numbers.
\<close>

definition stream :: "event list \<Rightarrow> conn" where
  "stream evs = \<lparr>incoming = evs, sends = [], sent = []\<rparr>"

definition client_on :: "conn \<Rightarrow> client" where
  "client_on c = \<lparr>host = ''localhost'', port = 13337, sock = Some c\<rparr>"

definition no_dumps :: "string \<Rightarrow> byte list" where
  "no_dumps q = []"

definition byte_loads :: "byte list \<Rightarrow> py_exc + json" where
  "byte_loads b = Inr (JList (map (\<lambda>x. JInt (uint x)) b))"

text \<open>
  Three response documents and the frames that carry them, a decoder that knows these
  three documents (and raises on anything else, as \<^verbatim>\<open>json.loads\<close> does on text
  that is not JSON), and an encoder that sends the bytes of the SQL text.
\<close>

definition bytes_of :: "string \<Rightarrow> byte list" where
  "bytes_of s = map (\<lambda>c. word_of_nat (of_char c)) s"

definition doc_rows :: string where
  "doc_rows = ''{\"success\": true, \"columns\": [\"name\"], \"rows\": [[1]], \"row_count\": 1}''"

definition doc_error :: string where
  "doc_error = ''{\"success\": false, \"error\": \"no such table\"}''"

definition doc_bare :: string where
  "doc_bare = ''{\"success\": true}''"

definition toy_loads :: "byte list \<Rightarrow> py_exc + json" where
  "toy_loads b =
     (if b = bytes_of doc_rows then
        Inr (JObj [(''success'', JBool True), (''columns'', JList [JStr ''name'']),
                   (''rows'', JList [JList [JInt 1]]), (''row_count'', JInt 1)])
      else if b = bytes_of doc_error then
        Inr (JObj [(''success'', JBool False), (''error'', JStr ''no such table'')])
      else if b = bytes_of doc_bare then
        Inr (JObj [(''success'', JBool True)])
      else Inl (Exc ValueError ''Expecting value''))"

text \<open>
  An environment in which everything goes well: the build is skipped, every local case
  prints what its predicate looks for, the server is ready at the first probe, answers
  the six remote cases as they expect, prints one line of its own and stops when asked.
\<close>

definition good_cli :: "cli_call \<Rightarrow> py_exc + (string \<times> int)" where
  "good_cli call =
     (case call of
        CliQuery q \<Rightarrow>
          if py_contains ''nonexistent'' q \<or> py_contains ''SELECTT'' q
          then Inr (''Error: no such table'', 1)
          else Inr (''name address count 3 row(s)'', 0)
      | CliInteractive text \<Rightarrow> Inr (''funcs segments cnt'', 0))"

definition good_server :: conn where
  "good_server =
     \<lparr>incoming =
        [Chunk (frame (bytes_of doc_rows)), Chunk (frame (bytes_of doc_rows)),
         Chunk (frame (bytes_of doc_rows)), Chunk (frame (bytes_of doc_rows)),
         Chunk (frame (bytes_of doc_error)), Chunk (frame (bytes_of doc_error))],
      sends = [], sent = []\<rparr>"

definition good_world :: world where
  "good_world =
     \<lparr>idasdk_set = True, test_db_exists = True, skip_build = True,
      cmake = (\<lambda>step. Inr (0, [])), plugin_files = [],
      cli_exists = True, cli = good_cli,
      driver_exists = True, popen = None,
      driver_output = ''Server running on port 13337'',
      exited_at = (\<lambda>i. False),
      probe_attempt = (\<lambda>i. Inr \<lparr>incoming = [], sends = [], sent = []\<rparr>),
      probe_ms = (\<lambda>i. 0),
      remote_attempt = Inr good_server,
      stops_on_terminate = True,
      json_dumps = bytes_of, json_loads = toy_loads\<rparr>"

text \<open>
  Variations. In \<open>bare_world\<close> the server answers the first remote case with a
  success flag and nothing else. In \<open>stalled_world\<close> the CLI fails every local case
  and the server executable is missing. In \<open>crash_world\<close> nothing listens and the
  third poll finds the server process gone. In \<open>broken_build_world\<close> cmake fails.
  In \<open>no_cli_world\<close> the CLI executable is missing and everything else goes well.
\<close>

definition bare_server :: conn where
  "bare_server =
     \<lparr>incoming =
        [Chunk (frame (bytes_of doc_bare)), Chunk (frame (bytes_of doc_rows)),
         Chunk (frame (bytes_of doc_rows)), Chunk (frame (bytes_of doc_rows)),
         Chunk (frame (bytes_of doc_error)), Chunk (frame (bytes_of doc_error))],
      sends = [], sent = []\<rparr>"

definition bare_world :: world where
  "bare_world = good_world\<lparr>remote_attempt := Inr bare_server\<rparr>"

definition stalled_world :: world where
  "stalled_world =
     good_world\<lparr>cli := (\<lambda>call. Inr (''Error: cannot open database'', 1)),
                driver_exists := False\<rparr>"

definition crash_world :: world where
  "crash_world =
     good_world\<lparr>exited_at := (\<lambda>i. i = 2),
                probe_attempt := (\<lambda>i. Inl (Exc OSError ''Connection refused'')),
                driver_output := ''fatal: cannot open database''\<rparr>"

definition broken_build_world :: world where
  "broken_build_world =
     good_world\<lparr>skip_build := False, cmake := (\<lambda>step. Inr (1, ''CMake Error''))\<rparr>"

definition no_cli_world :: world where
  "no_cli_world = good_world\<lparr>cli_exists := False\<rparr>"

section \<open>Vocabulary for the harness\<close>

text \<open>
  The time the first \<open>k\<close> iterations of the probe take, from iteration \<open>i\<close> on,
  when none of them ends the loop.
\<close>

fun elapsed :: "world \<Rightarrow> nat \<Rightarrow> nat \<Rightarrow> nat" where
  "elapsed w i 0 = 0"
| "elapsed w i (Suc k) = probe_ms w i + 500 + elapsed w (Suc i) k"

text \<open>
  Reading a trace. \<open>never_after P Q\<close>: no \<open>P\<close> action happens after a \<open>Q\<close>
  action. \<open>only_after P Q\<close>: every \<open>P\<close> action has a \<open>Q\<close> action before it.
  \<open>server_running\<close> follows the server process through a trace: spawned, then gone
  once a poll has found it exited or a wait has returned.
\<close>

fun never_after :: "(action \<Rightarrow> bool) \<Rightarrow> (action \<Rightarrow> bool) \<Rightarrow> action list \<Rightarrow> bool" where
  "never_after P Q [] = True"
| "never_after P Q (x # xs) = ((\<not> Q x \<or> list_all (\<lambda>y. \<not> P y) xs) \<and> never_after P Q xs)"

fun only_after :: "(action \<Rightarrow> bool) \<Rightarrow> (action \<Rightarrow> bool) \<Rightarrow> action list \<Rightarrow> bool" where
  "only_after P Q [] = True"
| "only_after P Q (x # xs) = (Q x \<or> (\<not> P x \<and> only_after P Q xs))"

fun server_running :: "bool \<Rightarrow> action list \<Rightarrow> bool" where
  "server_running b [] = b"
| "server_running b (Popen # xs) = server_running True xs"
| "server_running b (Poll True # xs) = server_running False xs"
| "server_running b (Reaped # xs) = server_running False xs"
| "server_running b (x # xs) = server_running b xs"

fun is_local_case :: "action \<Rightarrow> bool" where
  "is_local_case (RunCli n) = True"
| "is_local_case a = False"

fun is_remote_case :: "action \<Rightarrow> bool" where
  "is_remote_case (RemoteCase n) = True"
| "is_remote_case a = False"

fun is_spawn :: "action \<Rightarrow> bool" where
  "is_spawn Popen = True"
| "is_spawn a = False"

fun is_ready :: "action \<Rightarrow> bool" where
  "is_ready (Log s) = (s = ''Server is ready.'')"
| "is_ready a = False"

fun is_teardown :: "action \<Rightarrow> bool" where
  "is_teardown Terminate = True"
| "is_teardown a = False"

text \<open>
  The stage of a run that an action belongs to: a local case, the spawning of the
  server, the report that it is ready, a remote case, the teardown. Actions that say
  nothing about the order of the stages are at stage 0 and \<open>stages\<close> leaves them out.
\<close>

fun stage :: "action \<Rightarrow> nat" where
  "stage (RunCli n) = 1"
| "stage Popen = 2"
| "stage (Log s) = (if s = ''Server is ready.'' then 3 else 0)"
| "stage (RemoteCase n) = 4"
| "stage Terminate = 5"
| "stage a = 0"

definition stages :: "action list \<Rightarrow> nat list" where
  "stages acts = filter (\<lambda>n. 0 < n) (map stage acts)"

text \<open>The counts that \<^verbatim>\<open>print_results\<close> returns.\<close>

definition count_failed :: "test_result list \<Rightarrow> nat" where
  "count_failed rs = length (filter (\<lambda>r. \<not> truthy (tr_passed r)) rs)"

definition count_passed :: "test_result list \<Rightarrow> nat" where
  "count_passed rs = length (filter (\<lambda>r. truthy (tr_passed r)) rs)"

text \<open>
  What a run has done when the remote cases are about to start: the build, the local
  cases, their report, and the start of the server.
\<close>

definition before_remote :: "world \<Rightarrow> harness \<Rightarrow> action list" where
  "before_remote w h =
     snd (build_all w) @ snd (run_cli_local_tests w)
     @ [PrintResults ''CLI LOCAL MODE TESTS (Modes 1 & 2)''
          (count_passed (fst (run_cli_local_tests w)))
          (count_failed (fst (run_cli_local_tests w)))]
     @ snd (start_driver w h)"

section \<open>The receive loop\<close>

declare recv_exact_loop.simps [simp del]

lemma recv_empty_closed:
  "avail inc = [] \<Longrightarrow> first_fault inc = None \<Longrightarrow> recv k inc = (Inr [], [])"
  by (induction k inc rule: recv.induct) auto

lemma recv_empty_fault:
  "avail inc = [] \<Longrightarrow> first_fault inc = Some e \<Longrightarrow> recv k inc = (Inl e, after_fault inc)"
  by (induction k inc rule: recv.induct) auto

lemma recv_data:
  "avail inc \<noteq> [] \<Longrightarrow> 0 < k \<Longrightarrow>
   \<exists>chunk inc'. recv k inc = (Inr chunk, inc') \<and> chunk \<noteq> [] \<and> length chunk \<le> k \<and>
     avail inc = chunk @ avail inc' \<and> first_fault inc' = first_fault inc \<and>
     after_fault inc' = after_fault inc"
  by (induction k inc rule: recv.induct) auto

lemma loop_done:
  "n \<le> int (length data) \<Longrightarrow> recv_exact_loop n data inc = (Inr (Some data), inc)"
  by (subst recv_exact_loop.simps) simp

lemma loop_enough:
  "nat (n - int (length data)) \<le> length (avail inc) \<Longrightarrow>
   \<exists>inc'. recv_exact_loop n data inc =
            (Inr (Some (data @ take (nat (n - int (length data))) (avail inc))), inc') \<and>
          avail inc' = drop (nat (n - int (length data))) (avail inc) \<and>
          first_fault inc' = first_fault inc \<and> after_fault inc' = after_fault inc"
proof (induction n data inc rule: recv_exact_loop.induct)
  case (1 n data inc)
  show ?case
  proof (cases "int (length data) < n")
    case False
    then show ?thesis by (simp add: loop_done)
  next
    case True
    let ?m = "nat (n - int (length data))"
    from True have m: "0 < ?m" by simp
    with "1.prems" have "avail inc \<noteq> []" by auto
    from recv_data [OF this m] obtain chunk inc' where
      r: "recv ?m inc = (Inr chunk, inc')" and ne: "chunk \<noteq> []" and le: "length chunk \<le> ?m"
      and av: "avail inc = chunk @ avail inc'" and ff: "first_fault inc' = first_fault inc"
      and af: "after_fault inc' = after_fault inc"
      by blast
    define m' where "m' = nat (n - int (length (data @ chunk)))"
    have m': "m' = ?m - length chunk" by (simp add: m'_def)
    have "m' \<le> length (avail inc')" using "1.prems" av le by (simp add: m')
    then have "nat (n - int (length (data @ chunk))) \<le> length (avail inc')"
      by (simp only: m'_def)
    from "1.IH" [OF True r [symmetric] refl ne this] obtain inc'' where
      l: "recv_exact_loop n (data @ chunk) inc' =
            (Inr (Some ((data @ chunk) @ take m' (avail inc'))), inc'')"
      and av': "avail inc'' = drop m' (avail inc')"
      and ff': "first_fault inc'' = first_fault inc'" and af': "after_fault inc'' = after_fault inc'"
      unfolding m'_def by blast
    have "recv_exact_loop n data inc = recv_exact_loop n (data @ chunk) inc'"
      using True r ne by (subst recv_exact_loop.simps) simp
    moreover have "(data @ chunk) @ take m' (avail inc') = data @ take ?m (avail inc)"
      using le by (simp add: av m')
    moreover have "drop m' (avail inc') = drop ?m (avail inc)"
      using le by (simp add: av m')
    ultimately show ?thesis using l av' ff' af' ff af by simp
  qed
qed


lemma loop_short:
  "length (avail inc) < nat (n - int (length data)) \<Longrightarrow>
   recv_exact_loop n data inc =
     (case first_fault inc of None \<Rightarrow> (Inr None, []) | Some e \<Rightarrow> (Inl e, after_fault inc))"
proof (induction n data inc rule: recv_exact_loop.induct)
  case (1 n data inc)
  let ?m = "nat (n - int (length data))"
  from "1.prems" have True: "int (length data) < n" and m: "0 < ?m" by auto
  show ?case
  proof (cases "avail inc = []")
    case True
    show ?thesis
    proof (cases "first_fault inc")
      case None
      with True \<open>int (length data) < n\<close> show ?thesis
        by (subst recv_exact_loop.simps) (simp add: recv_empty_closed)
    next
      case (Some e)
      with True \<open>int (length data) < n\<close> show ?thesis
        by (subst recv_exact_loop.simps) (simp add: recv_empty_fault)
    qed
  next
    case False
    from recv_data [OF False m] obtain chunk inc' where
      r: "recv ?m inc = (Inr chunk, inc')" and ne: "chunk \<noteq> []" and le: "length chunk \<le> ?m"
      and av: "avail inc = chunk @ avail inc'" and ff: "first_fault inc' = first_fault inc"
      and af: "after_fault inc' = after_fault inc"
      by blast
    have "length (avail inc') < nat (n - int (length (data @ chunk)))"
      using "1.prems" av by simp
    from "1.IH" [OF True r [symmetric] refl ne this]
    have "recv_exact_loop n (data @ chunk) inc' =
            (case first_fault inc of None \<Rightarrow> (Inr None, [])
             | Some e \<Rightarrow> (Inl e, after_fault inc))"
      by (simp only: ff af)
    moreover have "recv_exact_loop n data inc = recv_exact_loop n (data @ chunk) inc'"
      using True r ne by (subst recv_exact_loop.simps) simp
    ultimately show ?thesis by simp
  qed
qed

lemma recv_exact_enough:
  assumes "nat n \<le> length (avail (incoming c))"
  shows "\<exists>inc'. recv_exact n c = (Inr (Some (take (nat n) (avail (incoming c)))), c\<lparr>incoming := inc'\<rparr>) \<and>
          avail inc' = drop (nat n) (avail (incoming c)) \<and>
          first_fault inc' = first_fault (incoming c) \<and>
          after_fault inc' = after_fault (incoming c)"
proof -
  from loop_enough [of n "[]" "incoming c"] assms obtain inc' where
    "recv_exact_loop n [] (incoming c) = (Inr (Some (take (nat n) (avail (incoming c)))), inc')"
    "avail inc' = drop (nat n) (avail (incoming c))"
    "first_fault inc' = first_fault (incoming c)" "after_fault inc' = after_fault (incoming c)"
    by auto
  then show ?thesis by (intro exI [of _ inc']) (simp add: recv_exact_def)
qed

lemma recv_exact_short:
  assumes "length (avail (incoming c)) < nat n"
  shows "recv_exact n c =
     (case first_fault (incoming c) of None \<Rightarrow> (Inr None, c\<lparr>incoming := []\<rparr>)
      | Some e \<Rightarrow> (Inl e, c\<lparr>incoming := after_fault (incoming c)\<rparr>))"
  using loop_short [of "incoming c" n "[]"] assms
  by (auto simp: recv_exact_def split: option.splits)


lemma sendall_ok:
  "send_fault c = None \<Longrightarrow> sendall buf c = (None, after_send buf c)"
  by (auto simp: sendall_def send_fault_def after_send_def split: list.splits option.splits)

lemma sendall_fault:
  "send_fault c = Some e \<Longrightarrow> sendall buf c = (Some e, c\<lparr>sends := tl (sends c)\<rparr>)"
  by (auto simp: sendall_def send_fault_def split: list.splits option.splits)

lemma length4_cases:
  "length (xs :: 'a list) = 4 \<Longrightarrow> \<exists>a b c d. xs = [a, b, c, d]"
  by (cases xs; simp; cases "tl xs"; simp; cases "tl (tl xs)"; simp; cases "tl (tl (tl xs))"; simp)

lemma unpack_four:
  assumes "length bs = 4"
  shows "\<exists>N. struct_unpack_I bs = Inr N \<and> 0 \<le> N \<and> N < 2 ^ 32"
proof -
  from length4_cases [OF assms] obtain a b c d where bs: "bs = [a, b, c, d]" by blast
  have "uint a < 2 ^ 8" "uint b < 2 ^ 8" "uint c < 2 ^ 8" "uint d < 2 ^ 8"
    using uint_bounded [of a] uint_bounded [of b] uint_bounded [of c] uint_bounded [of d]
    by simp_all
  moreover have "0 \<le> uint a" "0 \<le> uint b" "0 \<le> uint c" "0 \<le> uint d" by simp_all
  ultimately show ?thesis unfolding bs by simp
qed

lemma query_response_short_prefix:
  assumes "length (avail (incoming c)) < 4"
  shows "query_response dec c =
     (case first_fault (incoming c) of
        None \<Rightarrow> (Inr (failure ''Connection closed''), c\<lparr>incoming := []\<rparr>)
      | Some e \<Rightarrow> (Inl e, c\<lparr>incoming := after_fault (incoming c)\<rparr>))"
  using assms by (simp add: query_response_def recv_exact_short split: option.splits)

lemma query_response_prefix:
  assumes "4 \<le> length (avail (incoming c))"
    and "struct_unpack_I (take 4 (avail (incoming c))) = Inr N"
  shows "\<exists>inc'. query_response dec c =
            (if N > response_limit then (Inr (failure ''Response too large''), c\<lparr>incoming := inc'\<rparr>)
             else query_payload dec N (c\<lparr>incoming := inc'\<rparr>)) \<and>
          avail inc' = drop 4 (avail (incoming c)) \<and>
          first_fault inc' = first_fault (incoming c) \<and>
          after_fault inc' = after_fault (incoming c)"
proof -
  from recv_exact_enough [of 4 c] assms(1) obtain inc' where
    r: "recv_exact 4 c = (Inr (Some (take 4 (avail (incoming c)))), c\<lparr>incoming := inc'\<rparr>)"
    and p: "avail inc' = drop 4 (avail (incoming c))"
       "first_fault inc' = first_fault (incoming c)" "after_fault inc' = after_fault (incoming c)"
    by auto
  show ?thesis
    by (intro exI [of _ inc']) (simp add: query_response_def r assms(2) p)
qed

lemma query_payload_short:
  assumes "length (avail (incoming c)) < nat N"
  shows "query_payload dec N c =
     (case first_fault (incoming c) of
        None \<Rightarrow> (Inr (failure ''Connection closed''), c\<lparr>incoming := []\<rparr>)
      | Some e \<Rightarrow> (Inl e, c\<lparr>incoming := after_fault (incoming c)\<rparr>))"
  using assms by (simp add: query_payload_def recv_exact_short split: option.splits)

lemma query_payload_enough:
  assumes "nat N \<le> length (avail (incoming c))"
  shows "\<exists>inc'. query_payload dec N c =
            (case dec (take (nat N) (avail (incoming c))) of
               Inl e \<Rightarrow> (Inl e, c\<lparr>incoming := inc'\<rparr>)
             | Inr j \<Rightarrow> (Inr j, c\<lparr>incoming := inc'\<rparr>)) \<and>
          avail inc' = drop (nat N) (avail (incoming c))"
proof -
  from recv_exact_enough [OF assms] obtain inc' where
    r: "recv_exact N c = (Inr (Some (take (nat N) (avail (incoming c)))), c\<lparr>incoming := inc'\<rparr>)"
    and p: "avail inc' = drop (nat N) (avail (incoming c))"
    by auto
  show ?thesis
    by (intro exI [of _ inc']) (simp add: query_payload_def r p split: sum.splits)
qed

lemma query_body_sent:
  assumes "length (enc sql) < 2 ^ 32" and "send_fault c = None"
  shows "query_body enc dec sql c = query_response dec (after_send (frame (enc sql)) c)"
  using assms by (simp add: query_body_def struct_pack_I_def frame_def sendall_ok Let_def)

section \<open>The client's query\<close>

lemma incoming_after_send [simp]: "incoming (after_send buf c) = incoming c"
  by (simp add: after_send_def)

lemma sent_after_send [simp]: "sent (after_send buf c) = sent c @ [buf]"
  by (simp add: after_send_def)

lemma query_sent:
  assumes "sock cl = Some c" and "length (enc sql) < 2 ^ 32" and "send_fault c = None"
  shows "query enc dec sql cl =
     (case query_response dec (after_send (frame (enc sql)) c) of
        (Inl e, c') \<Rightarrow> (failure (exc_text e), cl\<lparr>sock := Some c'\<rparr>)
      | (Inr j, c') \<Rightarrow> (j, cl\<lparr>sock := Some c'\<rparr>))"
  using assms by (simp add: query_def query_body_sent)

text \<open>
  Claim C1. On a stream that delivers bytes \<open>bs\<close> with no transport fault and then
  ends, \<open>recv_exact n\<close> returns exactly the first \<open>n\<close> bytes and leaves the rest
  unread, or returns \<open>None\<close> when fewer than \<open>n\<close> bytes arrive. \<open>query\<close>
  reads the four prefix bytes, then the declared number of payload bytes, and decodes
  exactly those; a stream that ends in the prefix or in the payload gives
  \<open>{'success': False, 'error': 'Connection closed'}\<close>, after one send and with nothing
  left to read.
\<close>

theorem receive_exactly:
  fixes n N :: int
  assumes "first_fault (incoming c) = None" and "bs = avail (incoming c)"
    and "sock cl = Some c" and "send_fault c = None" and "length (enc sql) < 2 ^ 32"
  shows "(0 \<le> n \<and> nat n \<le> length bs \<longrightarrow>
            (\<exists>d c'. recv_exact n c = (Inr (Some d), c') \<and> d = take (nat n) bs \<and>
                    int (length d) = n \<and> avail (incoming c') = drop (nat n) bs))
       \<and> (length bs < nat n \<longrightarrow> recv_exact n c = (Inr None, c\<lparr>incoming := []\<rparr>))
       \<and> (length bs < 4 \<longrightarrow>
            query enc dec sql cl =
              (failure ''Connection closed'',
               cl\<lparr>sock := Some ((after_send (frame (enc sql)) c)\<lparr>incoming := []\<rparr>)\<rparr>))
       \<and> (4 \<le> length bs \<and> struct_unpack_I (take 4 bs) = Inr N \<and> N \<le> response_limit \<and>
            length bs < 4 + nat N \<longrightarrow>
            query enc dec sql cl =
              (failure ''Connection closed'',
               cl\<lparr>sock := Some ((after_send (frame (enc sql)) c)\<lparr>incoming := []\<rparr>)\<rparr>))
       \<and> (4 \<le> length bs \<and> struct_unpack_I (take 4 bs) = Inr N \<and> N \<le> response_limit \<and>
            4 + nat N \<le> length bs \<longrightarrow>
            (\<exists>c'. query enc dec sql cl =
                     (case dec (take (nat N) (drop 4 bs)) of
                        Inl e \<Rightarrow> failure (exc_text e) | Inr j \<Rightarrow> j,
                      cl\<lparr>sock := Some c'\<rparr>) \<and>
                  avail (incoming c') = drop (4 + nat N) bs \<and>
                  sent c' = sent c @ [frame (enc sql)]))"
proof (intro conjI impI)
  note qs = query_sent [where enc = enc and sql = sql and dec = dec, OF assms(3,5,4)]
  assume a: "0 \<le> n \<and> nat n \<le> length bs"
  with recv_exact_enough [of n c] assms(2) obtain inc' where
    "recv_exact n c = (Inr (Some (take (nat n) bs)), c\<lparr>incoming := inc'\<rparr>)"
    "avail inc' = drop (nat n) bs"
    by auto
  with a show "\<exists>d c'. recv_exact n c = (Inr (Some d), c') \<and> d = take (nat n) bs \<and>
                    int (length d) = n \<and> avail (incoming c') = drop (nat n) bs"
    by (intro exI [of _ "take (nat n) bs"] exI [of _ "c\<lparr>incoming := inc'\<rparr>"]) simp
next
  assume "length bs < nat n"
  then show "recv_exact n c = (Inr None, c\<lparr>incoming := []\<rparr>)"
    using assms(1,2) by (simp add: recv_exact_short)
next
  note qs = query_sent [where enc = enc and sql = sql and dec = dec, OF assms(3,5,4)]
  let ?c = "after_send (frame (enc sql)) c"
  assume "length bs < 4"
  then have "query_response dec ?c = (Inr (failure ''Connection closed''), ?c\<lparr>incoming := []\<rparr>)"
    using assms(1,2) by (simp add: query_response_short_prefix)
  then show "query enc dec sql cl =
      (failure ''Connection closed'', cl\<lparr>sock := Some (?c\<lparr>incoming := []\<rparr>)\<rparr>)"
    by (simp add: qs)
next
  note qs = query_sent [where enc = enc and sql = sql and dec = dec, OF assms(3,5,4)]
  let ?c = "after_send (frame (enc sql)) c"
  assume a: "4 \<le> length bs \<and> struct_unpack_I (take 4 bs) = Inr N \<and> N \<le> response_limit \<and>
            length bs < 4 + nat N"
  with query_response_prefix [of ?c N dec] assms(1,2) obtain inc' where
    q: "query_response dec ?c = query_payload dec N (?c\<lparr>incoming := inc'\<rparr>)"
    and p: "avail inc' = drop 4 bs" "first_fault inc' = None"
    by auto
  from a p have "length (avail (incoming (?c\<lparr>incoming := inc'\<rparr>))) < nat N" by auto
  from query_payload_short [OF this, of dec] p
  have "query_payload dec N (?c\<lparr>incoming := inc'\<rparr>) =
          (Inr (failure ''Connection closed''), ?c\<lparr>incoming := []\<rparr>)"
    by simp
  with q show "query enc dec sql cl =
      (failure ''Connection closed'', cl\<lparr>sock := Some (?c\<lparr>incoming := []\<rparr>)\<rparr>)"
    by (simp add: qs)
next
  note qs = query_sent [where enc = enc and sql = sql and dec = dec, OF assms(3,5,4)]
  let ?c = "after_send (frame (enc sql)) c"
  assume a: "4 \<le> length bs \<and> struct_unpack_I (take 4 bs) = Inr N \<and> N \<le> response_limit \<and>
            4 + nat N \<le> length bs"
  with query_response_prefix [of ?c N dec] assms(1,2) obtain inc' where
    q: "query_response dec ?c = query_payload dec N (?c\<lparr>incoming := inc'\<rparr>)"
    and p: "avail inc' = drop 4 bs"
    by auto
  from a p have "nat N \<le> length (avail (incoming (?c\<lparr>incoming := inc'\<rparr>)))" by auto
  from query_payload_enough [OF this, of dec] p obtain inc'' where
    q': "query_payload dec N (?c\<lparr>incoming := inc'\<rparr>) =
           (case dec (take (nat N) (drop 4 bs)) of
              Inl e \<Rightarrow> (Inl e, ?c\<lparr>incoming := inc', incoming := inc''\<rparr>)
            | Inr j \<Rightarrow> (Inr j, ?c\<lparr>incoming := inc', incoming := inc''\<rparr>))"
    and p': "avail inc'' = drop (nat N) (drop 4 bs)"
    by auto
  show "\<exists>c'. query enc dec sql cl =
                     (case dec (take (nat N) (drop 4 bs)) of
                        Inl e \<Rightarrow> failure (exc_text e) | Inr j \<Rightarrow> j,
                      cl\<lparr>sock := Some c'\<rparr>) \<and>
                  avail (incoming c') = drop (4 + nat N) bs \<and>
                  sent c' = sent c @ [frame (enc sql)]"
    by (intro exI [of _ "?c\<lparr>incoming := inc''\<rparr>"])
       (simp add: qs q q' p' add.commute split: sum.splits)
qed

theorem receive_exactly_witness:
  "recv_exact 4 (stream [Chunk [2, 0], Chunk [0, 0, 7], Chunk [9, 1]])
     = (Inr (Some [2, 0, 0, 0]), stream [Chunk [7], Chunk [9, 1]])
   \<and> recv_exact 4 (stream [Chunk [2, 0]]) = (Inr None, stream [])
   \<and> fst (query no_dumps byte_loads ''SELECT 1''
          (client_on (stream [Chunk [2, 0], Chunk [0, 0, 7], Chunk [9, 1]])))
       = JList [JInt 7, JInt 9]
   \<and> fst (query no_dumps byte_loads ''SELECT 1'' (client_on (stream [Chunk [2, 0]])))
       = failure ''Connection closed''
   \<and> fst (query no_dumps byte_loads ''SELECT 1'' (client_on (stream [Chunk [2, 0, 0, 0, 7]])))
       = failure ''Connection closed''"
proof -
  let ?full = "stream [Chunk [2, 0], Chunk [0, 0, 7], Chunk [9, 1]]"
  let ?cut = "stream [Chunk [2, 0]]"
  let ?part = "stream [Chunk [2, 0, 0, 0, 7]]"
  note full = receive_exactly [where c = ?full and bs = "[2, 0, 0, 0, 7, 9, 1]"
      and cl = "client_on ?full" and enc = no_dumps and sql = "''SELECT 1''" and n = 4
      and N = 2 and dec = byte_loads]
  note cut = receive_exactly [where c = ?cut and bs = "[2, 0]"
      and cl = "client_on ?cut" and enc = no_dumps and sql = "''SELECT 1''" and n = 4
      and N = 2 and dec = byte_loads]
  note part = receive_exactly [where c = ?part and bs = "[2, 0, 0, 0, 7]"
      and cl = "client_on ?part" and enc = no_dumps and sql = "''SELECT 1''" and n = 4
      and N = 2 and dec = byte_loads]
  have 1: "fst (recv_exact 4 ?full) = Inr (Some [2, 0, 0, 0])"
    "fst (query no_dumps byte_loads ''SELECT 1'' (client_on ?full)) = JList [JInt 7, JInt 9]"
    using full
    by (auto simp: stream_def client_on_def send_fault_def no_dumps_def byte_loads_def
        response_limit_def)
  have 2: "recv_exact 4 ?cut = (Inr None, stream [])"
    "fst (query no_dumps byte_loads ''SELECT 1'' (client_on ?cut)) = failure ''Connection closed''"
    using cut
    by (auto simp: stream_def client_on_def send_fault_def no_dumps_def)
  have 3: "fst (query no_dumps byte_loads ''SELECT 1'' (client_on ?part))
      = failure ''Connection closed''"
    using part
    by (auto simp: stream_def client_on_def send_fault_def no_dumps_def response_limit_def)
  have 4: "snd (recv_exact 4 ?full) = stream [Chunk [7], Chunk [9, 1]]"
    by (simp add: recv_exact_def recv_exact_loop.simps stream_def)
  from 1 2 3 4 show ?thesis by (simp add: prod_eq_iff)
qed

lemma query_send_fault:
  assumes "sock cl = Some c" and "length (enc sql) < 2 ^ 32" and "send_fault c = Some e"
  shows "query enc dec sql cl = (failure (exc_text e), cl\<lparr>sock := Some (c\<lparr>sends := tl (sends c)\<rparr>)\<rparr>)"
  using assms
  by (simp add: query_def query_body_def struct_pack_I_def sendall_fault Let_def)

text \<open>
  Claim C2. When the four prefix bytes declare more than 100 MiB, \<open>query\<close> returns
  \<open>{'success': False, 'error': 'Response too large'}\<close> and has taken only those four
  bytes from the connection: everything behind them, bytes and faults, is still to be
  read. When the declared length is at most the ceiling the payload is read: the
  result is the decoded payload, or the short read's outcome.
\<close>

theorem size_guard:
  fixes N :: int
  assumes "sock cl = Some c" and "send_fault c = None" and "length (enc sql) < 2 ^ 32"
    and "bs = avail (incoming c)" and "4 \<le> length bs"
    and "struct_unpack_I (take 4 bs) = Inr N"
  shows "(response_limit < N \<longrightarrow>
            (\<exists>c'. query enc dec sql cl = (failure ''Response too large'', cl\<lparr>sock := Some c'\<rparr>) \<and>
                  avail (incoming c') = drop 4 bs \<and>
                  first_fault (incoming c') = first_fault (incoming c) \<and>
                  after_fault (incoming c') = after_fault (incoming c) \<and>
                  sent c' = sent c @ [frame (enc sql)]))
       \<and> (N \<le> response_limit \<and> 4 + nat N \<le> length bs \<longrightarrow>
            (\<exists>c'. query enc dec sql cl =
                     (case dec (take (nat N) (drop 4 bs)) of
                        Inl e \<Rightarrow> failure (exc_text e) | Inr j \<Rightarrow> j,
                      cl\<lparr>sock := Some c'\<rparr>) \<and>
                  avail (incoming c') = drop (4 + nat N) bs))
       \<and> (N \<le> response_limit \<and> length bs < 4 + nat N \<longrightarrow>
            fst (query enc dec sql cl) =
              failure (case first_fault (incoming c) of
                         None \<Rightarrow> ''Connection closed'' | Some e \<Rightarrow> exc_text e))"
proof (intro conjI impI)
  note qs = query_sent [where enc = enc and sql = sql and dec = dec, OF assms(1,3,2)]
  let ?c = "after_send (frame (enc sql)) c"
  assume a: "response_limit < N"
  with query_response_prefix [of ?c N dec] assms(4,5,6) obtain inc' where
    q: "query_response dec ?c = (Inr (failure ''Response too large''), ?c\<lparr>incoming := inc'\<rparr>)"
    and p: "avail inc' = drop 4 bs" "first_fault inc' = first_fault (incoming c)"
      "after_fault inc' = after_fault (incoming c)"
    by auto
  show "\<exists>c'. query enc dec sql cl = (failure ''Response too large'', cl\<lparr>sock := Some c'\<rparr>) \<and>
                  avail (incoming c') = drop 4 bs \<and>
                  first_fault (incoming c') = first_fault (incoming c) \<and>
                  after_fault (incoming c') = after_fault (incoming c) \<and>
                  sent c' = sent c @ [frame (enc sql)]"
    by (intro exI [of _ "?c\<lparr>incoming := inc'\<rparr>"]) (simp add: qs q p)
next
  note qs = query_sent [where enc = enc and sql = sql and dec = dec, OF assms(1,3,2)]
  let ?c = "after_send (frame (enc sql)) c"
  assume a: "N \<le> response_limit \<and> 4 + nat N \<le> length bs"
  with query_response_prefix [of ?c N dec] assms(4,5,6) obtain inc' where
    q: "query_response dec ?c = query_payload dec N (?c\<lparr>incoming := inc'\<rparr>)"
    and p: "avail inc' = drop 4 bs"
    by auto
  from a p have "nat N \<le> length (avail (incoming (?c\<lparr>incoming := inc'\<rparr>)))" by auto
  from query_payload_enough [OF this, of dec] p obtain inc'' where
    q': "query_payload dec N (?c\<lparr>incoming := inc'\<rparr>) =
           (case dec (take (nat N) (drop 4 bs)) of
              Inl e \<Rightarrow> (Inl e, ?c\<lparr>incoming := inc', incoming := inc''\<rparr>)
            | Inr j \<Rightarrow> (Inr j, ?c\<lparr>incoming := inc', incoming := inc''\<rparr>))"
    and p': "avail inc'' = drop (nat N) (drop 4 bs)"
    by auto
  show "\<exists>c'. query enc dec sql cl =
                     (case dec (take (nat N) (drop 4 bs)) of
                        Inl e \<Rightarrow> failure (exc_text e) | Inr j \<Rightarrow> j,
                      cl\<lparr>sock := Some c'\<rparr>) \<and>
                  avail (incoming c') = drop (4 + nat N) bs"
    by (intro exI [of _ "?c\<lparr>incoming := inc''\<rparr>"])
       (simp add: qs q q' p' add.commute split: sum.splits)
next
  note qs = query_sent [where enc = enc and sql = sql and dec = dec, OF assms(1,3,2)]
  let ?c = "after_send (frame (enc sql)) c"
  assume a: "N \<le> response_limit \<and> length bs < 4 + nat N"
  with query_response_prefix [of ?c N dec] assms(4,5,6) obtain inc' where
    q: "query_response dec ?c = query_payload dec N (?c\<lparr>incoming := inc'\<rparr>)"
    and p: "avail inc' = drop 4 bs" "first_fault inc' = first_fault (incoming c)"
    by auto
  from a p assms(5) have "length (avail (incoming (?c\<lparr>incoming := inc'\<rparr>))) < nat N" by auto
  from query_payload_short [OF this, of dec] p
  show "fst (query enc dec sql cl) =
              failure (case first_fault (incoming c) of
                         None \<Rightarrow> ''Connection closed'' | Some e \<Rightarrow> exc_text e)"
    by (simp add: qs q split: option.splits)
qed

theorem size_guard_witness:
  "fst (query no_dumps byte_loads ''SELECT 1'' (client_on (stream [Chunk [1, 0, 64, 6, 123, 125]])))
     = failure ''Response too large''
   \<and> fst (query no_dumps byte_loads ''SELECT 1'' (client_on (stream [Chunk [0, 0, 64, 6, 123, 125]])))
     = failure ''Connection closed''
   \<and> fst (query no_dumps byte_loads ''SELECT 1'' (client_on (stream [Chunk [2, 0, 0, 0, 7, 9]])))
     = JList [JInt 7, JInt 9]"
proof -
  let ?over = "stream [Chunk [1, 0, 64, 6, 123, 125]]"
  let ?at = "stream [Chunk [0, 0, 64, 6, 123, 125]]"
  let ?small = "stream [Chunk [2, 0, 0, 0, 7, 9]]"
  note over = size_guard [where cl = "client_on ?over" and c = ?over
      and bs = "[1, 0, 64, 6, 123, 125]" and N = 104857601
      and enc = no_dumps and sql = "''SELECT 1''" and dec = byte_loads]
  note at = size_guard [where cl = "client_on ?at" and c = ?at
      and bs = "[0, 0, 64, 6, 123, 125]" and N = 104857600
      and enc = no_dumps and sql = "''SELECT 1''" and dec = byte_loads]
  note small = size_guard [where cl = "client_on ?small" and c = ?small
      and bs = "[2, 0, 0, 0, 7, 9]" and N = 2
      and enc = no_dumps and sql = "''SELECT 1''" and dec = byte_loads]
  have 1: "fst (query no_dumps byte_loads ''SELECT 1'' (client_on ?over))
      = failure ''Response too large''"
    using over
    by (auto simp: stream_def client_on_def send_fault_def no_dumps_def response_limit_def)
  have 2: "fst (query no_dumps byte_loads ''SELECT 1'' (client_on ?at))
      = failure ''Connection closed''"
    using at
    by (auto simp: stream_def client_on_def send_fault_def no_dumps_def response_limit_def)
  have 3: "fst (query no_dumps byte_loads ''SELECT 1'' (client_on ?small))
      = JList [JInt 7, JInt 9]"
    using small
    by (auto simp: stream_def client_on_def send_fault_def no_dumps_def response_limit_def
        byte_loads_def)
  from 1 2 3 show ?thesis by simp
qed

text \<open>
  Claim C3. A transport exception raised by the send, by a receive of the prefix or by
  a receive of the payload does not leave \<open>query\<close>: the result is the dictionary
  with \<open>success = False\<close> whose \<open>error\<close> is the exception's text. The same holds
  of every exception of the \<^verbatim>\<open>try\<close> block.
\<close>

theorem transport_faults_caught:
  fixes N :: int
  assumes "sock cl = Some c" and "length (enc sql) < 2 ^ 32" and "bs = avail (incoming c)"
  shows "(send_fault c = Some e \<longrightarrow>
            query enc dec sql cl =
              (failure (exc_text e), cl\<lparr>sock := Some (c\<lparr>sends := tl (sends c)\<rparr>)\<rparr>))
       \<and> (send_fault c = None \<and> first_fault (incoming c) = Some e \<and> length bs < 4 \<longrightarrow>
            fst (query enc dec sql cl) = failure (exc_text e))
       \<and> (send_fault c = None \<and> first_fault (incoming c) = Some e \<and> 4 \<le> length bs \<and>
            struct_unpack_I (take 4 bs) = Inr N \<and> N \<le> response_limit \<and>
            length bs < 4 + nat N \<longrightarrow>
            fst (query enc dec sql cl) = failure (exc_text e))
       \<and> (\<forall>e' c'. query_body enc dec sql c = (Inl e', c') \<longrightarrow>
            query enc dec sql cl = (failure (exc_text e'), cl\<lparr>sock := Some c'\<rparr>))"
proof (intro conjI impI allI)
  assume "send_fault c = Some e"
  from query_send_fault [where enc = enc and sql = sql and dec = dec, OF assms(1,2) this]
  show "query enc dec sql cl =
          (failure (exc_text e), cl\<lparr>sock := Some (c\<lparr>sends := tl (sends c)\<rparr>)\<rparr>)" .
next
  let ?c = "after_send (frame (enc sql)) c"
  assume a: "send_fault c = None \<and> first_fault (incoming c) = Some e \<and> length bs < 4"
  then have "query_response dec ?c = (Inl e, ?c\<lparr>incoming := after_fault (incoming c)\<rparr>)"
    using assms(3) by (simp add: query_response_short_prefix)
  with a show "fst (query enc dec sql cl) = failure (exc_text e)"
    by (simp add: query_sent [where enc = enc and sql = sql and dec = dec, OF assms(1,2)])
next
  let ?c = "after_send (frame (enc sql)) c"
  assume a: "send_fault c = None \<and> first_fault (incoming c) = Some e \<and> 4 \<le> length bs \<and>
            struct_unpack_I (take 4 bs) = Inr N \<and> N \<le> response_limit \<and>
            length bs < 4 + nat N"
  with query_response_prefix [of ?c N dec] assms(3) obtain inc' where
    q: "query_response dec ?c = query_payload dec N (?c\<lparr>incoming := inc'\<rparr>)"
    and p: "avail inc' = drop 4 bs" "first_fault inc' = Some e"
    by auto
  from a p have "length (avail (incoming (?c\<lparr>incoming := inc'\<rparr>))) < nat N" by auto
  from query_payload_short [OF this, of dec] p
  have "query_payload dec N (?c\<lparr>incoming := inc'\<rparr>) =
          (Inl e, ?c\<lparr>incoming := inc', incoming := after_fault inc'\<rparr>)"
    by simp
  with a q show "fst (query enc dec sql cl) = failure (exc_text e)"
    by (simp add: query_sent [where enc = enc and sql = sql and dec = dec, OF assms(1,2)])
next
  fix e' c'
  assume "query_body enc dec sql c = (Inl e', c')"
  with assms(1) show "query enc dec sql cl = (failure (exc_text e'), cl\<lparr>sock := Some c'\<rparr>)"
    by (simp add: query_def)
qed

theorem transport_faults_caught_witness:
  "fst (query no_dumps byte_loads ''SELECT 1''
          (client_on \<lparr>incoming = [], sends = [Some (Exc OSError ''Broken pipe'')], sent = []\<rparr>))
     = failure ''Broken pipe''
   \<and> fst (query no_dumps byte_loads ''SELECT 1''
          (client_on (stream [Chunk [3, 0], Fault (Exc TimeoutError ''timed out'')])))
     = failure ''timed out''
   \<and> fst (query no_dumps byte_loads ''SELECT 1''
          (client_on (stream [Chunk [3, 0, 0, 0, 91],
                              Fault (Exc OSError ''Connection reset by peer'')])))
     = failure ''Connection reset by peer''"
proof -
  let ?pipe = "\<lparr>incoming = [], sends = [Some (Exc OSError ''Broken pipe'')], sent = []\<rparr>"
  let ?slow = "stream [Chunk [3, 0], Fault (Exc TimeoutError ''timed out'')]"
  let ?reset = "stream [Chunk [3, 0, 0, 0, 91], Fault (Exc OSError ''Connection reset by peer'')]"
  note pipe = transport_faults_caught [where cl = "client_on ?pipe" and c = ?pipe
      and bs = "[]" and e = "Exc OSError ''Broken pipe''"
      and enc = no_dumps and sql = "''SELECT 1''" and dec = byte_loads]
  note slow = transport_faults_caught [where cl = "client_on ?slow" and c = ?slow
      and bs = "[3, 0]" and e = "Exc TimeoutError ''timed out''"
      and enc = no_dumps and sql = "''SELECT 1''" and dec = byte_loads]
  note reset = transport_faults_caught [where cl = "client_on ?reset" and c = ?reset
      and bs = "[3, 0, 0, 0, 91]" and e = "Exc OSError ''Connection reset by peer''" and N = 3
      and enc = no_dumps and sql = "''SELECT 1''" and dec = byte_loads]
  have b: "query_body no_dumps byte_loads ''SELECT 1'' ?pipe
      = (Inl (Exc OSError ''Broken pipe''), ?pipe\<lparr>sends := []\<rparr>)"
    by (simp add: query_body_def struct_pack_I_def sendall_def no_dumps_def)
  have 1: "fst (query no_dumps byte_loads ''SELECT 1'' (client_on ?pipe)) = failure ''Broken pipe''"
    using pipe b by (auto simp: client_on_def send_fault_def no_dumps_def)
  have 2: "fst (query no_dumps byte_loads ''SELECT 1'' (client_on ?slow)) = failure ''timed out''"
    using slow by (auto simp: stream_def client_on_def send_fault_def no_dumps_def)
  have 3: "fst (query no_dumps byte_loads ''SELECT 1'' (client_on ?reset))
      = failure ''Connection reset by peer''"
    using reset
    by (auto simp: stream_def client_on_def send_fault_def no_dumps_def response_limit_def)
  from 1 2 3 show ?thesis by simp
qed

section \<open>The client's socket\<close>

lemma client_step_live:
  "(sock (client_step enc dec cl op) \<noteq> None) = expect_live (sock cl \<noteq> None) op"
proof (cases op)
  case (Connect attempt)
  then show ?thesis by (cases attempt) (simp_all add: connect_def)
next
  case Disconnect
  then show ?thesis by (simp add: disconnect_def split: option.splits)
next
  case (Query q)
  then show ?thesis by (auto simp: query_def split: option.splits prod.splits sum.splits)
qed

lemma client_run_live:
  "(sock (foldl (client_step enc dec) cl ops) \<noteq> None) = foldl expect_live (sock cl \<noteq> None) ops"
proof (induction ops arbitrary: cl)
  case Nil
  show ?case by (simp only: foldl_Nil)
next
  case (Cons a ops)
  show ?case
    by (simp only: foldl_Cons Cons.IH [of "client_step enc dec cl a"] client_step_live)
qed

text \<open>
  Claim C10. After any sequence of connects, disconnects and queries on a new client,
  \<open>sock\<close> is set exactly when the last connect or disconnect of the sequence is a
  connect that succeeded. A failed connect resets \<open>sock\<close>, a disconnect leaves it
  \<open>None\<close>, and a query on a client without a socket returns
  \<open>{'success': False, 'error': 'Not connected'}\<close> and changes nothing: no connection
  exists that it could use.
\<close>

theorem socket_invariant:
  "(sock (foldl (client_step enc dec) (new_client h p) ops) \<noteq> None)
      = foldl expect_live False ops
   \<and> connect (Inl e) cl = (False, cl\<lparr>sock := None\<rparr>)
   \<and> sock (disconnect cl) = None
   \<and> (sock cl = None \<longrightarrow> query enc dec q cl = (failure ''Not connected'', cl))"
proof (intro conjI impI)
  show "(sock (foldl (client_step enc dec) (new_client h p) ops) \<noteq> None)
      = foldl expect_live False ops"
    using client_run_live [of enc dec "new_client h p" ops] by (simp add: new_client_def)
  show "connect (Inl e) cl = (False, cl\<lparr>sock := None\<rparr>)" by (simp add: connect_def)
  show "sock (disconnect cl) = None" by (simp add: disconnect_def split: option.splits)
  assume "sock cl = None"
  then show "query enc dec q cl = (failure ''Not connected'', cl)" by (simp add: query_def)
qed

theorem socket_invariant_witness:
  "sock (foldl (client_step (\<lambda>s. []) (\<lambda>b. Inr JNull)) (new_client ''localhost'' 13337)
          [Connect (Inr \<lparr>incoming = [], sends = [], sent = []\<rparr>), Query ''SELECT 1'',
           Disconnect, Connect (Inl (Exc OSError ''Connection refused''))]) = None
   \<and> sock (foldl (client_step (\<lambda>s. []) (\<lambda>b. Inr JNull)) (new_client ''localhost'' 13337)
          [Connect (Inl (Exc OSError ''Connection refused'')),
           Connect (Inr \<lparr>incoming = [], sends = [], sent = []\<rparr>), Query ''SELECT 1'']) \<noteq> None
   \<and> query (\<lambda>s. []) (\<lambda>b. Inr JNull) ''SELECT 1'' (new_client ''localhost'' 13337)
       = (failure ''Not connected'', new_client ''localhost'' 13337)"
  using socket_invariant [where enc = "\<lambda>s. []" and dec = "\<lambda>b. Inr JNull" and h = "''localhost''"
      and p = 13337 and cl = "new_client ''localhost'' 13337" and q = "''SELECT 1''"
      and ops = "[Connect (Inr \<lparr>incoming = [], sends = [], sent = []\<rparr>), Query ''SELECT 1'',
           Disconnect, Connect (Inl (Exc OSError ''Connection refused''))]"]
    socket_invariant [where enc = "\<lambda>s. []" and dec = "\<lambda>b. Inr JNull" and h = "''localhost''"
      and p = 13337 and cl = "new_client ''localhost'' 13337" and q = "''SELECT 1''"
      and ops = "[Connect (Inl (Exc OSError ''Connection refused'')),
           Connect (Inr \<lparr>incoming = [], sends = [], sent = []\<rparr>), Query ''SELECT 1'']"]
  by (simp add: new_client_def)

section \<open>The readiness probe\<close>

declare probe_loop.simps [simp del]

lemma probe_loop_exit:
  assumes "now < probe_timeout" and "exited_at w i"
  shows "probe_loop w i now p =
     ((False, p\<lparr>exited := True, unread := []\<rparr>),
      [Poll True, ReadOutput (unread p),
       Log (''Driver exited unexpectedly:'' @ newline @ unread p)])"
  using assms by (subst probe_loop.simps) simp

lemma probe_loop_retry:
  assumes "now < probe_timeout" and "\<not> exited_at w i" and "probe_attempt w i = Inl e"
  shows "probe_loop w i now p =
     (fst (probe_loop w (Suc i) (now + probe_ms w i + 500) p),
      [Poll False, ProbeConnect False, Sleep]
      @ snd (probe_loop w (Suc i) (now + probe_ms w i + 500) p))"
  using assms by (subst probe_loop.simps) (simp add: connect_def split: prod.splits)

lemma probe_loop_exit_later:
  assumes "\<forall>j<k. \<not> exited_at w (i + j) \<and> isl (probe_attempt w (i + j))"
    and "exited_at w (i + k)" and "now + elapsed w i k < probe_timeout"
  shows "probe_loop w i now p =
     ((False, p\<lparr>exited := True, unread := []\<rparr>),
      concat (replicate k [Poll False, ProbeConnect False, Sleep])
      @ [Poll True, ReadOutput (unread p),
         Log (''Driver exited unexpectedly:'' @ newline @ unread p)])"
  using assms
proof (induction k arbitrary: i now)
  case 0
  then show ?case by (simp add: probe_loop_exit)
next
  case (Suc k)
  from Suc.prems(1) have here: "\<not> exited_at w i" "isl (probe_attempt w i)"
    by (metis add.right_neutral zero_less_Suc)+
  then obtain e where e: "probe_attempt w i = Inl e" by (cases "probe_attempt w i") auto
  from Suc.prems(3) have now: "now < probe_timeout" by simp
  have a: "\<forall>j<k. \<not> exited_at w (Suc i + j) \<and> isl (probe_attempt w (Suc i + j))"
    using Suc.prems(1) by (metis Suc_less_eq add_Suc_right add_Suc)
  have b: "exited_at w (Suc i + k)" using Suc.prems(2) by simp
  have c: "now + probe_ms w i + 500 + elapsed w (Suc i) k < probe_timeout"
    using Suc.prems(3) by (simp add: add.assoc)
  from Suc.IH [OF a b c] probe_loop_retry [OF now here(1) e, of p]
  show ?case by simp
qed

section \<open>The trace of each phase\<close>

lemma stages_append [simp]: "stages (xs @ ys) = stages xs @ stages ys"
  by (simp add: stages_def)

lemma stages_Nil [simp]: "stages [] = []"
  by (simp add: stages_def)

lemma stages_Cons: "stages (a # xs) = (if 0 < stage a then [stage a] else []) @ stages xs"
  by (simp add: stages_def)

lemma server_running_append:
  "server_running b (xs @ ys) = server_running (server_running b xs) ys"
  by (induction b xs rule: server_running.induct) simp_all

lemma copy_plugins_quiet:
  "stages (snd (copy_plugins files)) = [] \<and> server_running b (snd (copy_plugins files)) = b"
proof (induction files)
  case Nil
  show ?case by simp
next
  case (Cons f files)
  obtain n outcome where f: "f = (n, outcome)" by (cases f)
  obtain r acts where c: "copy_plugins files = (r, acts)" by (cases "copy_plugins files")
  with Cons have "stages acts = [] \<and> server_running b acts = b" by simp
  then show ?case by (cases outcome) (simp_all add: f c stages_Cons)
qed

lemma configure_and_build_quiet:
  assumes "start \<noteq> ''Server is ready.''" and "hd tool \<noteq> CHR ''S''" and "tool \<noteq> []"
  shows "stages (snd (configure_and_build w start tool conf bld)) = []"
    and "server_running b (snd (configure_and_build w start tool conf bld)) = b"
  using assms
  by (cases tool; auto simp: configure_and_build_def stages_Cons split: sum.splits prod.splits)+

lemma run_cmake_quiet:
  "stages (snd (run_cmake w dir conf bld)) = []"
  "server_running b (snd (run_cmake w dir conf bld)) = b"
  by (simp_all add: run_cmake_def configure_and_build_quiet)

lemma build_cli_quiet:
  "stages (snd (build_cli w)) = []"
  "server_running b (snd (build_cli w)) = b"
  by (simp_all add: build_cli_def configure_and_build_quiet)

lemma build_all_quiet:
  "stages (snd (build_all w)) = []"
  "server_running b (snd (build_all w)) = b"
proof -
  have "stages (snd (build_all w)) = [] \<and> server_running b (snd (build_all w)) = b"
  proof (cases "skip_build w")
    case True
    then show ?thesis by (simp add: build_all_def stages_Cons)
  next
    case False
    obtain r1 a1 where p: "run_cmake w ''plugin'' PluginConfigure PluginBuild = (r1, a1)"
      by (cases "run_cmake w ''plugin'' PluginConfigure PluginBuild")
    obtain r3 a3 where d: "run_cmake w ''test'' DriverConfigure DriverBuild = (r3, a3)"
      by (cases "run_cmake w ''test'' DriverConfigure DriverBuild")
    obtain r4 a4 where c: "build_cli w = (r4, a4)" by (cases "build_cli w")
    obtain r2 a2 where k: "copy_plugins (plugin_files w) = (r2, a2)"
      by (cases "copy_plugins (plugin_files w)")
    have q2: "stages a2 = []" "\<And>b. server_running b a2 = b"
      using copy_plugins_quiet [of "plugin_files w"] k by simp_all
    have q1: "stages a1 = []" "\<And>b. server_running b a1 = b"
      using run_cmake_quiet [where w = w and dir = "''plugin''" and conf = PluginConfigure and bld = PluginBuild] p by simp_all
    have q3: "stages a3 = []" "\<And>b. server_running b a3 = b"
      using run_cmake_quiet [where w = w and dir = "''test''" and conf = DriverConfigure and bld = DriverBuild] d by simp_all
    have q4: "stages a4 = []" "\<And>b. server_running b a4 = b"
      using build_cli_quiet [where w = w] c by simp_all
    show ?thesis
      by (simp add: build_all_def False p d c k q1 q2 q3 q4 server_running_append
          split: sum.splits bool.splits option.splits)
  qed
  then show "stages (snd (build_all w)) = []" "server_running b (snd (build_all w)) = b"
    by simp_all
qed

lemma run_local_case_trace:
  "set (stages (snd (run_local_case w t prev))) \<subseteq> {1}"
  "server_running b (snd (run_local_case w t prev)) = b"
  by (simp_all add: run_local_case_def stages_Cons split: option.splits)

lemma cli_local_loop_trace:
  "set (stages (snd (cli_local_loop w ts prev))) \<subseteq> {1} \<and>
   server_running b (snd (cli_local_loop w ts prev)) = b"
proof (induction ts arbitrary: prev b)
  case Nil
  show ?case by simp
next
  case (Cons t ts)
  obtain r prev' acts where c: "run_local_case w t prev = ((r, prev'), acts)"
    by (cases "run_local_case w t prev") auto
  obtain rs acts' where l: "cli_local_loop w ts prev' = (rs, acts')"
    by (cases "cli_local_loop w ts prev'")
  from run_local_case_trace [where w = w and t = t and prev = prev] c
  have a: "set (stages acts) \<subseteq> {1}" "\<And>b. server_running b acts = b" by simp_all
  from Cons.IH [where prev = prev'] l
  have a': "set (stages acts') \<subseteq> {1}" "\<And>b. server_running b acts' = b" by simp_all
  show ?case using a a' by (simp add: c l server_running_append)
qed

lemma run_cli_local_tests_trace:
  "set (stages (snd (run_cli_local_tests w))) \<subseteq> {1}"
  "server_running b (snd (run_cli_local_tests w)) = b"
  using cli_local_loop_trace [where w = w and ts = define_cli_local_tests and prev = None and b = b]
  by (auto simp: run_cli_local_tests_def stages_Cons split: prod.splits)

lemma print_results_trace:
  "snd (print_results rs title) = [PrintResults title (count_passed rs) (count_failed rs)]"
  "fst (print_results rs title) = (count_passed rs, count_failed rs)"
  by (simp_all add: print_results_def count_passed_def count_failed_def Let_def)

lemma probe_loop_trace:
  "stages (snd (probe_loop w i now p)) = (if fst (fst (probe_loop w i now p)) then [3] else []) \<and>
   (fst (fst (probe_loop w i now p)) \<longrightarrow> snd (fst (probe_loop w i now p)) = p) \<and>
   unread (snd (fst (probe_loop w i now p))) \<in> {unread p, []} \<and>
   (\<not> exited p \<longrightarrow>
      server_running b (snd (probe_loop w i now p))
        = (b \<and> \<not> exited (snd (fst (probe_loop w i now p)))))"
proof (induction w i now p arbitrary: b rule: probe_loop.induct)
  case (1 w i now p)
  show ?case
  proof (cases "now < probe_timeout")
    case False
    then show ?thesis by (subst (1 2 3 4 5 6 7) probe_loop.simps) (simp add: stages_Cons)
  next
    case True
    note t = this
    show ?thesis
    proof (cases "exited_at w i")
      case True
      with t show ?thesis by (simp add: probe_loop_exit stages_Cons)
    next
      case False
      note f = this
      show ?thesis
      proof (cases "probe_attempt w i")
        case (Inr c)
        with t f have "probe_loop w i now p =
            ((True, p), [Poll False, ProbeConnect True, Log ''Server is ready.''])"
          by (subst probe_loop.simps) (simp add: connect_def)
        then show ?thesis by (simp add: stages_Cons)
      next
        case (Inl e)
        have cn: "(False, (new_client ''localhost'' 13337)\<lparr>sock := None\<rparr>) =
            connect (probe_attempt w i) (new_client ''localhost'' 13337)"
          by (simp add: Inl connect_def)
        note ih = "1.IH" [OF t f cn refl]
        show ?thesis
          using ih [of b] by (simp add: probe_loop_retry [OF t f Inl] stages_Cons)
      qed
    qed
  qed
qed

lemma start_driver_absent:
  "\<not> driver_exists w \<Longrightarrow>
   start_driver w h = ((Inr False, h), [Log ''Starting driver...'', Log ''Driver not found''])"
  by (simp add: start_driver_def)

lemma start_driver_popen_raises:
  "driver_exists w \<Longrightarrow> popen w = Some e \<Longrightarrow>
   start_driver w h = ((Inl e, h), [Log ''Starting driver...''])"
  by (simp add: start_driver_def)

lemma start_driver_spawned:
  "driver_exists w \<Longrightarrow> popen w = None \<Longrightarrow>
   start_driver w h =
     ((Inr (fst (fst (probe_loop w 0 0 \<lparr>exited = False, unread = driver_output w\<rparr>))),
       h\<lparr>driver_process :=
           Some (snd (fst (probe_loop w 0 0 \<lparr>exited = False, unread = driver_output w\<rparr>)))\<rparr>),
      [Log ''Starting driver...'', Popen, Log ''Waiting for server to start...'']
      @ snd (probe_loop w 0 0 \<lparr>exited = False, unread = driver_output w\<rparr>))"
  by (simp add: start_driver_def split: prod.splits)

lemma start_driver_trace:
  "stages (snd (start_driver w h)) =
     (if driver_exists w \<and> popen w = None
      then (if fst (fst (start_driver w h)) = Inr True then [2, 3] else [2]) else [])"
  "fst (fst (start_driver w h)) = Inr True \<Longrightarrow>
     driver_exists w \<and> popen w = None \<and>
     driver_process (snd (fst (start_driver w h)))
       = Some \<lparr>exited = False, unread = driver_output w\<rparr>"
  "\<not> (driver_exists w \<and> popen w = None) \<Longrightarrow>
     snd (fst (start_driver w h)) = h \<and> server_running b (snd (start_driver w h)) = b"
  "driver_exists w \<and> popen w = None \<Longrightarrow>
     \<exists>p. driver_process (snd (fst (start_driver w h))) = Some p \<and>
         unread p \<in> {driver_output w, []} \<and>
         server_running b (snd (start_driver w h)) = (\<not> exited p)"
proof -
  let ?p0 = "\<lparr>exited = False, unread = driver_output w\<rparr>"
  note pl = probe_loop_trace [of w 0 0 ?p0 True]
  show "stages (snd (start_driver w h)) =
     (if driver_exists w \<and> popen w = None
      then (if fst (fst (start_driver w h)) = Inr True then [2, 3] else [2]) else [])"
  proof (cases "driver_exists w")
    case False
    then show ?thesis by (simp add: start_driver_absent stages_Cons)
  next
    case True
    show ?thesis
    proof (cases "popen w")
      case (Some e)
      with True show ?thesis by (simp add: start_driver_popen_raises stages_Cons)
    next
      case None
      with True pl show ?thesis by (simp add: start_driver_spawned stages_Cons)
    qed
  qed
  show "driver_exists w \<and> popen w = None \<and>
     driver_process (snd (fst (start_driver w h)))
       = Some \<lparr>exited = False, unread = driver_output w\<rparr>"
    if "fst (fst (start_driver w h)) = Inr True"
  proof (cases "driver_exists w")
    case False
    with that show ?thesis by (simp add: start_driver_absent)
  next
    case True
    show ?thesis
    proof (cases "popen w")
      case (Some e)
      with True that show ?thesis by (simp add: start_driver_popen_raises)
    next
      case None
      with True that pl show ?thesis by (simp add: start_driver_spawned)
    qed
  qed
  show "snd (fst (start_driver w h)) = h \<and> server_running b (snd (start_driver w h)) = b"
    if "\<not> (driver_exists w \<and> popen w = None)"
  proof (cases "driver_exists w")
    case False
    then show ?thesis by (simp add: start_driver_absent)
  next
    case True
    with that obtain e where "popen w = Some e" by auto
    with True show ?thesis by (simp add: start_driver_popen_raises)
  qed
  show "\<exists>p. driver_process (snd (fst (start_driver w h))) = Some p \<and>
         unread p \<in> {driver_output w, []} \<and>
         server_running b (snd (start_driver w h)) = (\<not> exited p)"
    if "driver_exists w \<and> popen w = None"
    using that pl by (simp add: start_driver_spawned)
qed

lemma run_basic_loop_trace:
  "set (stages (snd (run_basic_loop enc dec ts cl))) \<subseteq> {4} \<and>
   server_running b (snd (run_basic_loop enc dec ts cl)) = b"
proof (induction ts arbitrary: cl b)
  case Nil
  show ?case by simp
next
  case (Cons t ts)
  obtain result cl' where q: "query enc dec (rt_sql t) cl = (result, cl')"
    by (cases "query enc dec (rt_sql t) cl")
  show ?case
  proof (cases "rt_check t result")
    case (Inl e)
    with q show ?thesis by (simp add: stages_Cons)
  next
    case (Inr p)
    obtain r cl'' acts where l: "run_basic_loop enc dec ts cl' = ((r, cl''), acts)"
      by (cases "run_basic_loop enc dec ts cl'") auto
    from Cons.IH [where cl = cl'] l
    have a: "set (stages acts) \<subseteq> {4}" "\<And>b. server_running b acts = b" by simp_all
    show ?thesis using a by (cases r) (simp_all add: q Inr l stages_Cons)
  qed
qed

lemma run_remote_tests_trace:
  "set (stages (snd (run_remote_tests w))) \<subseteq> {4}"
  "server_running b (snd (run_remote_tests w)) = b"
proof -
  have "set (stages (snd (run_remote_tests w))) \<subseteq> {4} \<and>
        server_running b (snd (run_remote_tests w)) = b"
  proof (cases "remote_attempt w")
    case (Inl e)
    then show ?thesis by (simp add: run_remote_tests_def connect_def stages_Cons)
  next
    case (Inr c)
    let ?cl = "(new_client ''localhost'' 13337)\<lparr>sock := Some c\<rparr>"
    obtain r cl' acts where
      l: "run_basic_loop (json_dumps w) (json_loads w) basic_tests ?cl = ((r, cl'), acts)"
      by (cases "run_basic_loop (json_dumps w) (json_loads w) basic_tests ?cl") auto
    from run_basic_loop_trace [where enc = "json_dumps w" and dec = "json_loads w"
        and ts = basic_tests and cl = ?cl] l
    have a: "set (stages acts) \<subseteq> {4}" "\<And>b. server_running b acts = b" by simp_all
    show ?thesis using a
      by (cases r)
         (simp_all add: run_remote_tests_def run_basic_tests_def connect_def Inr l stages_Cons
            server_running_append)
  qed
  then show "set (stages (snd (run_remote_tests w))) \<subseteq> {4}"
    "server_running b (snd (run_remote_tests w)) = b" by simp_all
qed

lemma stop_driver_trace:
  "driver_process (fst (stop_driver w h)) = None"
  "stages (snd (stop_driver w h)) = (if driver_process h = None then [] else [5])"
  "server_running b (snd (stop_driver w h)) = (if driver_process h = None then b else False)"
  by (simp_all add: stop_driver_def stages_Cons server_running_append split: option.splits)

section \<open>The shape of a run\<close>

lemma run_body_build_raises:
  "fst (build_all w) = Inl e \<Longrightarrow> run_body w h = ((Inl e, h), snd (build_all w))"
  by (cases "build_all w") (simp add: run_body_def)

lemma run_body_build_fails:
  "fst (build_all w) = Inr False \<Longrightarrow> run_body w h = ((Inr 2, h), snd (build_all w))"
  by (cases "build_all w") (simp add: run_body_def)

lemma run_body_built:
  assumes "fst (build_all w) = Inr True"
  shows "run_body w h =
    (case fst (fst (start_driver w h)) of
       Inl e \<Rightarrow> ((Inl e, snd (fst (start_driver w h))), before_remote w h)
     | Inr False \<Rightarrow> ((Inr 3, snd (fst (start_driver w h))), before_remote w h)
     | Inr True \<Rightarrow>
         (case fst (run_remote_tests w) of
            Inl e \<Rightarrow>
              ((Inl e, snd (fst (start_driver w h))),
               before_remote w h @ snd (run_remote_tests w))
          | Inr rs \<Rightarrow>
              ((Inr (if count_failed (fst (run_cli_local_tests w)) + count_failed rs = 0
                     then 0 else 1),
                snd (fst (start_driver w h))),
               before_remote w h @ snd (run_remote_tests w)
               @ [PrintResults ''CLI REMOTE MODE TESTS (Mode 3)''
                    (count_passed rs) (count_failed rs),
                  PrintTotal (count_passed (fst (run_cli_local_tests w)) + count_passed rs)
                    (count_failed (fst (run_cli_local_tests w)) + count_failed rs)])))"
proof -
  obtain a1 where b: "build_all w = (Inr True, a1)" using assms by (cases "build_all w") auto
  obtain lr a2 where l: "run_cli_local_tests w = (lr, a2)" by (cases "run_cli_local_tests w")
  obtain r4 h' a4 where s: "start_driver w h = ((r4, h'), a4)"
    by (cases "start_driver w h") auto
  obtain r5 a5 where r: "run_remote_tests w = (r5, a5)" by (cases "run_remote_tests w")
  show ?thesis
    by (simp add: run_body_def b l s r before_remote_def print_results_def Let_def
        count_passed_def count_failed_def split: sum.splits bool.splits)
qed

lemma run_unfold:
  "run w h =
     ((fst (fst (run_body w h)), fst (stop_driver w (snd (fst (run_body w h))))),
      snd (run_body w h) @ snd (stop_driver w (snd (fst (run_body w h)))))"
  by (simp add: run_def split: prod.splits)











lemma new_harness_process [simp]: "driver_process new_harness = None"
  by (simp add: new_harness_def)

lemma before_remote_stages:
  "stages (before_remote w h) =
     stages (snd (run_cli_local_tests w)) @ stages (snd (start_driver w h))"
  by (simp add: before_remote_def build_all_quiet stages_Cons)

lemma before_remote_running:
  "server_running b (before_remote w h) = server_running b (snd (start_driver w h))"
  by (simp add: before_remote_def server_running_append build_all_quiet
      run_cli_local_tests_trace)

lemma run_stages:
  "\<exists>ones fours. set ones \<subseteq> {1} \<and> set fours \<subseteq> {4} \<and>
     stages (snd (run w new_harness))
       \<in> {[], ones, ones @ [2, 5], ones @ [2, 3] @ fours @ [5]}"
proof -
  let ?h = "new_harness"
  let ?ones = "stages (snd (run_cli_local_tests w))"
  let ?fours = "stages (snd (run_remote_tests w))"
  let ?s = "start_driver w ?h"
  have o: "set ?ones \<subseteq> {1}" by (rule run_cli_local_tests_trace)
  have f: "set ?fours \<subseteq> {4}" by (rule run_remote_tests_trace)
  have "stages (snd (run w ?h)) \<in> {[], ?ones, ?ones @ [2, 5], ?ones @ [2, 3] @ ?fours @ [5]}"
  proof (cases "fst (build_all w)")
    case (Inl e)
    then show ?thesis
      by (simp add: run_unfold run_body_build_raises build_all_quiet stop_driver_trace)
  next
    case (Inr ok)
    show ?thesis
    proof (cases ok)
      case False
      with Inr show ?thesis
        by (simp add: run_unfold run_body_build_fails build_all_quiet stop_driver_trace)
    next
      case True
      with Inr have b: "fst (build_all w) = Inr True" by simp
      show ?thesis
      proof (cases "driver_exists w \<and> popen w = None")
        case False
        from start_driver_trace(3) [OF False, of ?h]
        have h: "snd (fst ?s) = ?h" by simp
        from False have s: "stages (snd ?s) = []"
          by (simp add: start_driver_trace(1))
        from start_driver_trace(2) [of w ?h] False
        have nt: "fst (fst ?s) \<noteq> Inr True" by auto
        have "stages (snd (run w ?h)) = ?ones"
        proof (cases "fst (fst ?s)")
          case (Inl e)
          then show ?thesis
            by (simp add: run_unfold run_body_built [OF b] h s before_remote_stages
                stop_driver_trace)
        next
          case (Inr r)
          with nt have "fst (fst ?s) = Inr False" by simp
          then show ?thesis
            by (simp add: run_unfold run_body_built [OF b] h s before_remote_stages
                stop_driver_trace)
        qed
        then show ?thesis by simp
      next
        case True
        from start_driver_trace(4) [OF True, of ?h] obtain p where
          h: "driver_process (snd (fst ?s)) = Some p" by auto
        have s: "stages (snd ?s) = (if fst (fst ?s) = Inr True then [2, 3] else [2])"
          using True by (simp add: start_driver_trace(1))
        show ?thesis
        proof (cases "fst (fst ?s)")
          case (Inl e)
          then have "stages (snd (run w ?h)) = ?ones @ [2, 5]"
            by (simp add: run_unfold run_body_built [OF b] h s before_remote_stages
                stop_driver_trace)
          then show ?thesis by simp
        next
          case (Inr r)
          show ?thesis
          proof (cases r)
            case False
            with Inr have "stages (snd (run w ?h)) = ?ones @ [2, 5]"
              by (simp add: run_unfold run_body_built [OF b] h s before_remote_stages
                  stop_driver_trace)
            then show ?thesis by simp
          next
            case True
            with Inr have r: "fst (fst ?s) = Inr True" by simp
            have "stages (snd (run w ?h)) = ?ones @ [2, 3] @ ?fours @ [5]"
              by (cases "fst (run_remote_tests w)")
                 (simp_all add: run_unfold run_body_built [OF b] r h s before_remote_stages
                    stop_driver_trace stages_Cons)
            then show ?thesis by simp
          qed
        qed
      qed
    qed
  qed
  with o f show ?thesis by blast
qed

lemma run_running: "\<not> server_running False (snd (run w new_harness))"
proof -
  let ?h = "new_harness"
  show ?thesis
  proof (cases "fst (build_all w)")
    case (Inl e)
    then show ?thesis
      by (simp add: run_unfold run_body_build_raises build_all_quiet stop_driver_trace
          server_running_append)
  next
    case (Inr ok)
    show ?thesis
    proof (cases ok)
      case False
      with Inr show ?thesis
        by (simp add: run_unfold run_body_build_fails build_all_quiet stop_driver_trace
            server_running_append)
    next
      case True
      with Inr have b: "fst (build_all w) = Inr True" by simp
      show ?thesis
      proof (cases "driver_exists w \<and> popen w = None")
        case False
        from start_driver_trace(3) [OF False, of ?h False]
        have h: "snd (fst (start_driver w ?h)) = ?h"
          "server_running False (snd (start_driver w ?h)) = False" by simp_all
        show ?thesis
          by (simp add: run_unfold run_body_built [OF b] h before_remote_running
              stop_driver_trace server_running_append run_remote_tests_trace
              split: sum.splits bool.splits)
      next
        case True
        from start_driver_trace(4) [OF True, of ?h] obtain p where
          h: "driver_process (snd (fst (start_driver w ?h))) = Some p" by auto
        show ?thesis
          by (simp add: run_unfold run_body_built [OF b] h
              stop_driver_trace server_running_append split: sum.splits bool.splits)
      qed
    qed
  qed
qed

lemma stage_iff:
  "is_local_case a = (stage a = 1)" "is_spawn a = (stage a = 2)" "is_ready a = (stage a = 3)"
  "is_remote_case a = (stage a = 4)" "is_teardown a = (stage a = 5)"
  by (cases a; simp)+

lemma mem_stages: "0 < n \<Longrightarrow> (n \<in> set (stages acts)) = (\<exists>a\<in>set acts. stage a = n)"
  by (auto simp: stages_def)

lemma never_after_stages:
  assumes "sorted (stages acts)" and "\<And>a. P a = (stage a = m)" and "\<And>a. Q a = (stage a = n)"
    and "0 < m" and "m < n"
  shows "never_after P Q acts"
  using assms(1)
proof (induction acts)
  case Nil
  show ?case by simp
next
  case (Cons x xs)
  show ?case
  proof (cases "Q x")
    case False
    with Cons show ?thesis by (simp add: stages_Cons split: if_splits)
  next
    case True
    then have sx: "stage x = n" by (simp add: assms(3))
    with Cons.prems assms(4,5) have all: "\<forall>k\<in>set (stages xs). n \<le> k" and s: "sorted (stages xs)"
      by (simp_all add: stages_Cons)
    have "list_all (\<lambda>y. \<not> P y) xs"
    proof (simp add: list_all_iff, rule ballI)
      fix y assume y: "y \<in> set xs"
      show "\<not> P y"
      proof
        assume "P y"
        then have "stage y = m" by (simp add: assms(2))
        with y assms(4) have "m \<in> set (stages xs)" by (auto simp: mem_stages)
        with all assms(5) show False by auto
      qed
    qed
    with Cons.IH [OF s] show ?thesis by simp
  qed
qed

lemma only_after_stages:
  assumes "sorted (stages acts)" and "\<And>a. P a = (stage a = m)" and "\<And>a. Q a = (stage a = n)"
    and "0 < n" and "n < m" and "m \<in> set (stages acts) \<longrightarrow> n \<in> set (stages acts)"
  shows "only_after P Q acts"
  using assms(1,6)
proof (induction acts)
  case Nil
  show ?case by simp
next
  case (Cons x xs)
  show ?case
  proof (cases "Q x")
    case True
    then show ?thesis by simp
  next
    case False
    then have nq: "stage x \<noteq> n" by (simp add: assms(3))
    have np: "\<not> P x"
    proof
      assume "P x"
      then have sx: "stage x = m" by (simp add: assms(2))
      with Cons.prems assms(4,5) have "n \<in> set (stages xs)" and "\<forall>k\<in>set (stages xs). m \<le> k"
        by (auto simp: stages_Cons)
      with assms(5) show False by auto
    qed
    then have "stage x \<noteq> m" by (simp add: assms(2))
    with nq Cons.prems have "sorted (stages xs)"
      and "m \<in> set (stages xs) \<longrightarrow> n \<in> set (stages xs)"
      by (auto simp: stages_Cons split: if_splits)
    from Cons.IH [OF this] False np show ?thesis by simp
  qed
qed

lemma body_outcome:
  "fst (fst (run_body w h)) =
     (case fst (build_all w) of
        Inl e \<Rightarrow> Inl e
      | Inr False \<Rightarrow> Inr 2
      | Inr True \<Rightarrow>
          (case fst (fst (start_driver w h)) of
             Inl e \<Rightarrow> Inl e
           | Inr False \<Rightarrow> Inr 3
           | Inr True \<Rightarrow>
               (case fst (run_remote_tests w) of
                  Inl e \<Rightarrow> Inl e
                | Inr rs \<Rightarrow>
                    Inr (if count_failed (fst (run_cli_local_tests w)) + count_failed rs = 0
                         then 0 else 1))))"
proof (cases "fst (build_all w)")
  case (Inl e)
  then show ?thesis by (simp add: run_body_build_raises)
next
  case (Inr ok)
  show ?thesis
  proof (cases ok)
    case False
    with Inr show ?thesis by (simp add: run_body_build_fails)
  next
    case True
    with Inr show ?thesis by (simp add: run_body_built split: sum.splits bool.splits)
  qed
qed




section \<open>Which local cases a run executes\<close>

lemma run_local_case_actions:
  "snd (run_local_case w t prev) =
     (if (lt_mode t = ''query'' \<and> lt_sql t \<noteq> None) \<or>
         (lt_mode t = ''interactive'' \<and> lt_commands t \<noteq> None)
      then [RunCli (lt_name t)] else [])"
  by (auto simp: run_local_case_def split: option.splits)

lemma run_local_case_name: "tr_name (fst (fst (run_local_case w t prev))) = lt_name t"
  by (simp add: run_local_case_def run_and_check_def handle_local_def local_result_def
      split: option.splits sum.splits prod.splits)

lemma cli_local_loop_actions:
  "snd (cli_local_loop w ts prev) =
     concat (map (\<lambda>t. if (lt_mode t = ''query'' \<and> lt_sql t \<noteq> None) \<or>
                            (lt_mode t = ''interactive'' \<and> lt_commands t \<noteq> None)
                         then [RunCli (lt_name t)] else []) ts)
   \<and> map tr_name (fst (cli_local_loop w ts prev)) = map lt_name ts"
proof (induction ts arbitrary: prev)
  case Nil
  show ?case by simp
next
  case (Cons t ts)
  obtain r prev' acts where c: "run_local_case w t prev = ((r, prev'), acts)"
    by (cases "run_local_case w t prev") auto
  obtain rs acts' where l: "cli_local_loop w ts prev' = (rs, acts')"
    by (cases "cli_local_loop w ts prev'")
  from run_local_case_actions [of w t prev] run_local_case_name [of w t prev] c
  have a: "acts = (if (lt_mode t = ''query'' \<and> lt_sql t \<noteq> None) \<or>
                      (lt_mode t = ''interactive'' \<and> lt_commands t \<noteq> None)
                   then [RunCli (lt_name t)] else [])" "tr_name r = lt_name t"
    by simp_all
  from Cons.IH [of prev'] l show ?case by (simp add: c l a)
qed

lemma run_cli_local_tests_cases:
  "snd (run_cli_local_tests w) =
     (if cli_exists w then
        [Log ''Running CLI local mode tests...'', RunCli ''cli_local_count_funcs'',
         RunCli ''cli_local_list_funcs'', RunCli ''cli_local_list_segments'',
         RunCli ''cli_local_invalid_table'', RunCli ''cli_local_syntax_error'',
         RunCli ''cli_interactive_tables'', RunCli ''cli_interactive_query'']
      else [Log ''Running CLI local mode tests...'', Log ''CLI not found''])"
  "map tr_name (fst (run_cli_local_tests w)) =
     (if cli_exists w then
        [''cli_local_count_funcs'', ''cli_local_list_funcs'', ''cli_local_list_segments'',
         ''cli_local_invalid_table'', ''cli_local_syntax_error'', ''cli_interactive_tables'',
         ''cli_interactive_query'']
      else [''cli_not_found''])"
proof -
  obtain rs acts where l: "cli_local_loop w define_cli_local_tests None = (rs, acts)"
    by (cases "cli_local_loop w define_cli_local_tests None")
  from cli_local_loop_actions [of w define_cli_local_tests None] l
  have a: "acts = [RunCli ''cli_local_count_funcs'',
         RunCli ''cli_local_list_funcs'', RunCli ''cli_local_list_segments'',
         RunCli ''cli_local_invalid_table'', RunCli ''cli_local_syntax_error'',
         RunCli ''cli_interactive_tables'', RunCli ''cli_interactive_query'']"
    and n: "map tr_name rs = [''cli_local_count_funcs'', ''cli_local_list_funcs'', ''cli_local_list_segments'',
         ''cli_local_invalid_table'', ''cli_local_syntax_error'', ''cli_interactive_tables'',
         ''cli_interactive_query'']"
    by (simp_all add: define_cli_local_tests_def)
  show "snd (run_cli_local_tests w) =
     (if cli_exists w then
        [Log ''Running CLI local mode tests...'', RunCli ''cli_local_count_funcs'',
         RunCli ''cli_local_list_funcs'', RunCli ''cli_local_list_segments'',
         RunCli ''cli_local_invalid_table'', RunCli ''cli_local_syntax_error'',
         RunCli ''cli_interactive_tables'', RunCli ''cli_interactive_query'']
      else [Log ''Running CLI local mode tests...'', Log ''CLI not found''])"
    by (simp add: run_cli_local_tests_def l a)
  show "map tr_name (fst (run_cli_local_tests w)) =
     (if cli_exists w then
        [''cli_local_count_funcs'', ''cli_local_list_funcs'', ''cli_local_list_segments'',
         ''cli_local_invalid_table'', ''cli_local_syntax_error'', ''cli_interactive_tables'',
         ''cli_interactive_query'']
      else [''cli_not_found''])"
    by (simp add: run_cli_local_tests_def l n)
qed

lemma no_local: "1 \<notin> set (stages acts) \<Longrightarrow> filter is_local_case acts = []"
  by (auto simp: filter_empty_conv stage_iff mem_stages)

lemma filter_before:
  assumes "never_after P Q xs" and "\<And>a. Q a \<Longrightarrow> \<not> P a"
  shows "filter P (takeWhile (\<lambda>a. \<not> Q a) xs) = filter P xs"
  using assms(1)
proof (induction xs)
  case Nil
  show ?case by simp
next
  case (Cons x xs)
  show ?case
  proof (cases "Q x")
    case True
    with Cons.prems have "list_all (\<lambda>y. \<not> P y) xs" by simp
    then have "filter P xs = []" by (simp add: list_all_iff filter_empty_conv)
    with True assms(2) [of x] show ?thesis by simp
  next
    case False
    with Cons show ?thesis by simp
  qed
qed

lemma run_local_cases:
  "filter is_local_case (snd (run w h)) =
     (if fst (build_all w) = Inr True then filter is_local_case (snd (run_cli_local_tests w))
      else [])"
proof -
  have b: "filter is_local_case (snd (build_all w)) = []"
    by (rule no_local) (simp add: build_all_quiet)
  have s: "filter is_local_case (snd (start_driver w h)) = []"
    by (rule no_local) (simp add: start_driver_trace(1))
  have r: "filter is_local_case (snd (run_remote_tests w)) = []"
    by (rule no_local) (use run_remote_tests_trace(1) [of w] in auto)
  have t: "filter is_local_case (snd (stop_driver w h')) = []" for h'
    by (rule no_local) (simp add: stop_driver_trace(2))
  show ?thesis
  proof (cases "fst (build_all w)")
    case (Inl e)
    then show ?thesis by (simp add: run_unfold run_body_build_raises b t)
  next
    case (Inr ok)
    show ?thesis
    proof (cases ok)
      case False
      with Inr show ?thesis by (simp add: run_unfold run_body_build_fails b t)
    next
      case True
      with Inr have bt: "fst (build_all w) = Inr True" by simp
      have br: "filter is_local_case (before_remote w h)
                  = filter is_local_case (snd (run_cli_local_tests w))"
        by (simp add: before_remote_def b s)
      show ?thesis
        by (simp add: run_unfold run_body_built [OF bt] bt br r t split: sum.splits bool.splits)
    qed
  qed
qed

lemma spawn_needs_build:
  assumes "Popen \<in> set (snd (run w new_harness))"
  shows "fst (build_all w) = Inr True"
proof (rule ccontr)
  assume n: "fst (build_all w) \<noteq> Inr True"
  have "stages (snd (run w new_harness)) = []"
  proof (cases "fst (build_all w)")
    case (Inl e)
    then show ?thesis
      by (simp add: run_unfold run_body_build_raises build_all_quiet stop_driver_trace)
  next
    case (Inr ok)
    with n have "fst (build_all w) = Inr False" by simp
    then show ?thesis
      by (simp add: run_unfold run_body_build_fails build_all_quiet stop_driver_trace)
  qed
  moreover from assms have "2 \<in> set (stages (snd (run w new_harness)))"
    by (auto simp: mem_stages intro: bexI [of _ Popen])
  ultimately show False by simp
qed

section \<open>Runs in the concrete environments\<close>

lemma good_build: "build_all good_world = (Inr True, [Log ''Skipping build (--skip-build)''])"
  by (simp add: build_all_def good_world_def)

lemma good_local_count:
  assumes "cli_exists w" and "cli w = good_cli"
  shows "count_failed (fst (run_cli_local_tests w)) = 0"
    and "count_passed (fst (run_cli_local_tests w)) = 7"
    and "snd (run_cli_local_tests w) =
      [Log ''Running CLI local mode tests...'', RunCli ''cli_local_count_funcs'',
       RunCli ''cli_local_list_funcs'', RunCli ''cli_local_list_segments'',
       RunCli ''cli_local_invalid_table'', RunCli ''cli_local_syntax_error'',
       RunCli ''cli_interactive_tables'', RunCli ''cli_interactive_query'']"
  using assms
  by (simp_all add: run_cli_local_tests_def define_cli_local_tests_def run_local_case_def
      run_and_check_def good_cli_def local_result_def lower_def lower_char_def newline_def
      count_failed_def count_passed_def)

lemma good_start:
  assumes "driver_exists w" and "popen w = None" and "\<not> exited_at w 0"
    and "probe_attempt w 0 = Inr c"
  shows "start_driver w h =
    ((Inr True, h\<lparr>driver_process := Some \<lparr>exited = False, unread = driver_output w\<rparr>\<rparr>),
     [Log ''Starting driver...'', Popen, Log ''Waiting for server to start...'',
      Poll False, ProbeConnect True, Log ''Server is ready.''])"
  using assms
  by (simp add: start_driver_spawned probe_loop.simps [of w 0 0] probe_timeout_def connect_def)

lemma good_remote:
  assumes "remote_attempt w = Inr good_server" and "json_dumps w = bytes_of"
    and "json_loads w = toy_loads"
  shows "count_failed (case fst (run_remote_tests w) of Inr rs \<Rightarrow> rs | Inl e \<Rightarrow> []) = 0"
    and "\<exists>rs. fst (run_remote_tests w) = Inr rs"
    and "count_passed (case fst (run_remote_tests w) of Inr rs \<Rightarrow> rs | Inl e \<Rightarrow> []) = 6"
    and "snd (run_remote_tests w) =
     [Log ''Running CLI remote mode tests...'', RemoteConnect True,
      RemoteCase ''count_funcs'', RemoteCase ''list_funcs'', RemoteCase ''list_segments'',
      RemoteCase ''list_names'', RemoteCase ''invalid_table'', RemoteCase ''syntax_error'',
      RemoteDisconnect]"
  using assms
  by (simp_all add: run_remote_tests_def connect_def new_client_def good_server_def
      run_basic_tests_def basic_tests_def query_def query_body_def frame_def
      struct_pack_I_def sendall_def query_response_def query_payload_def recv_exact_def
      recv_exact_loop.simps response_limit_def toy_loads_def bytes_of_def doc_bare_def
      doc_rows_def doc_error_def check_one_row_def check_name_column_def check_success_def
      check_error_def Let_def disconnect_def convert_result_def count_failed_def
      count_passed_def)

lemma good_run:
  "fst (fst (run good_world new_harness)) = Inr 0 \<and>
   snd (run good_world new_harness) =
     [Log ''Skipping build (--skip-build)'',
      Log ''Running CLI local mode tests...'', RunCli ''cli_local_count_funcs'',
      RunCli ''cli_local_list_funcs'', RunCli ''cli_local_list_segments'',
      RunCli ''cli_local_invalid_table'', RunCli ''cli_local_syntax_error'',
      RunCli ''cli_interactive_tables'', RunCli ''cli_interactive_query'',
      PrintResults ''CLI LOCAL MODE TESTS (Modes 1 & 2)'' 7 0,
      Log ''Starting driver...'', Popen, Log ''Waiting for server to start...'',
      Poll False, ProbeConnect True, Log ''Server is ready.'',
      Log ''Running CLI remote mode tests...'', RemoteConnect True,
      RemoteCase ''count_funcs'', RemoteCase ''list_funcs'', RemoteCase ''list_segments'',
      RemoteCase ''list_names'', RemoteCase ''invalid_table'', RemoteCase ''syntax_error'',
      RemoteDisconnect,
      PrintResults ''CLI REMOTE MODE TESTS (Mode 3)'' 6 0, PrintTotal 13 0,
      Log ''Stopping driver...'', Terminate, Reaped,
      ReadOutput ''Server running on port 13337'',
      PrintDriverOutput ''Server running on port 13337'']"
proof -
  let ?w = good_world
  have b: "fst (build_all ?w) = Inr True" by (simp add: good_build)
  have l: "count_failed (fst (run_cli_local_tests ?w)) = 0"
    "count_passed (fst (run_cli_local_tests ?w)) = 7"
    by (rule good_local_count; simp add: good_world_def)+
  have s: "start_driver ?w new_harness =
    ((Inr True, new_harness\<lparr>driver_process := Some \<lparr>exited = False, unread = driver_output ?w\<rparr>\<rparr>),
     [Log ''Starting driver...'', Popen, Log ''Waiting for server to start...'',
      Poll False, ProbeConnect True, Log ''Server is ready.''])"
    by (rule good_start [where c = "\<lparr>incoming = [], sends = [], sent = []\<rparr>"])
       (simp_all add: good_world_def)
  have r: "remote_attempt ?w = Inr good_server" "json_dumps ?w = bytes_of"
    "json_loads ?w = toy_loads" by (simp_all add: good_world_def)
  from good_remote(2) [OF r] obtain rs where rs: "fst (run_remote_tests ?w) = Inr rs" by blast
  with good_remote(1,3) [OF r] have cf: "count_failed rs = 0" "count_passed rs = 6"
    by simp_all
  have rt: "snd (run_remote_tests ?w) =
     [Log ''Running CLI remote mode tests...'', RemoteConnect True,
      RemoteCase ''count_funcs'', RemoteCase ''list_funcs'', RemoteCase ''list_segments'',
      RemoteCase ''list_names'', RemoteCase ''invalid_table'', RemoteCase ''syntax_error'',
      RemoteDisconnect]"
    by (rule good_remote(4) [OF r])
  have lt: "snd (run_cli_local_tests ?w) =
      [Log ''Running CLI local mode tests...'', RunCli ''cli_local_count_funcs'',
       RunCli ''cli_local_list_funcs'', RunCli ''cli_local_list_segments'',
       RunCli ''cli_local_invalid_table'', RunCli ''cli_local_syntax_error'',
       RunCli ''cli_interactive_tables'', RunCli ''cli_interactive_query'']"
    by (rule good_local_count(3); simp add: good_world_def)
  have out: "driver_output ?w = ''Server running on port 13337''"
    "stops_on_terminate ?w" by (simp_all add: good_world_def)
  show ?thesis
    by (simp add: run_unfold run_body_built [OF b] s rs l cf before_remote_def good_build
        lt rt stop_driver_def out strip_def is_space_def)
qed

lemma bare_remote:
  assumes "remote_attempt w = Inr bare_server" and "json_dumps w = bytes_of"
    and "json_loads w = toy_loads"
  shows "run_remote_tests w =
     (Inl (Exc KeyError (quoted ''rows'')),
      [Log ''Running CLI remote mode tests...'', RemoteConnect True,
       RemoteCase ''count_funcs''])"
  using assms
  by (simp add: run_remote_tests_def connect_def new_client_def bare_server_def
      run_basic_tests_def basic_tests_def query_def query_body_def frame_def
      struct_pack_I_def sendall_def query_response_def query_payload_def recv_exact_def
      recv_exact_loop.simps response_limit_def toy_loads_def bytes_of_def doc_bare_def
      doc_rows_def doc_error_def check_one_row_def Let_def)

lemma crash_start:
  "start_driver crash_world h =
     ((Inr False, h\<lparr>driver_process := Some \<lparr>exited = True, unread = []\<rparr>\<rparr>),
      [Log ''Starting driver...'', Popen, Log ''Waiting for server to start...'',
       Poll False, ProbeConnect False, Sleep, Poll False, ProbeConnect False, Sleep,
       Poll True, ReadOutput ''fatal: cannot open database'',
       Log (''Driver exited unexpectedly:'' @ newline @ ''fatal: cannot open database'')])"
proof -
  have k: "\<forall>j<2. \<not> exited_at crash_world (0 + j) \<and> isl (probe_attempt crash_world (0 + j))"
    by (simp add: crash_world_def good_world_def)
  have e: "exited_at crash_world (0 + 2)" by (simp add: crash_world_def good_world_def)
  have t: "0 + elapsed crash_world 0 2 < probe_timeout"
    by (simp add: crash_world_def good_world_def probe_timeout_def numeral_2_eq_2)
  have d: "driver_exists crash_world" "popen crash_world = None"
    "driver_output crash_world = ''fatal: cannot open database''"
    by (simp_all add: crash_world_def good_world_def)
  show ?thesis
    by (simp add: start_driver_spawned d probe_loop_exit_later [OF k e t] numeral_2_eq_2)
qed

lemma broken_build:
  "fst (build_all broken_build_world) = Inr False"
  by (simp add: build_all_def run_cmake_def configure_and_build_def broken_build_world_def
      good_world_def)

lemma stalled_local:
  "\<not> truthy (tr_passed (hd (fst (run_cli_local_tests stalled_world))))"
  "0 < count_failed (fst (run_cli_local_tests stalled_world))"
  by (simp_all add: run_cli_local_tests_def define_cli_local_tests_def run_local_case_def
      run_and_check_def local_result_def stalled_world_def good_world_def count_failed_def)

lemma spawned_in_run:
  assumes "fst (build_all w) = Inr True" and "driver_exists w" and "popen w = None"
  shows "Popen \<in> set (snd (run w h))"
proof -
  have "Popen \<in> set (before_remote w h)"
    by (simp add: before_remote_def start_driver_spawned assms(2,3))
  then have "Popen \<in> set (snd (run_body w h))"
    by (simp add: run_body_built [OF assms(1)] split: sum.splits bool.splits)
  then show ?thesis by (simp add: run_unfold)
qed

lemma main_code:
  assumes "idasdk_set w" and "test_db_exists w"
  shows "fst (main w) = (case fst (fst (run_body w new_harness)) of Inl e \<Rightarrow> 1 | Inr c \<Rightarrow> c)"
  using assms by (simp add: main_def run_unfold split: prod.splits sum.splits)

lemma no_cli_run:
  "fst (fst (run no_cli_world new_harness)) = Inr 1 \<and>
   snd (run no_cli_world new_harness) =
     [Log ''Skipping build (--skip-build)'',
      Log ''Running CLI local mode tests...'', Log ''CLI not found'',
      PrintResults ''CLI LOCAL MODE TESTS (Modes 1 & 2)'' 0 1,
      Log ''Starting driver...'', Popen, Log ''Waiting for server to start...'',
      Poll False, ProbeConnect True, Log ''Server is ready.'',
      Log ''Running CLI remote mode tests...'', RemoteConnect True,
      RemoteCase ''count_funcs'', RemoteCase ''list_funcs'', RemoteCase ''list_segments'',
      RemoteCase ''list_names'', RemoteCase ''invalid_table'', RemoteCase ''syntax_error'',
      RemoteDisconnect,
      PrintResults ''CLI REMOTE MODE TESTS (Mode 3)'' 6 0, PrintTotal 6 1,
      Log ''Stopping driver...'', Terminate, Reaped,
      ReadOutput ''Server running on port 13337'',
      PrintDriverOutput ''Server running on port 13337'']"
proof -
  let ?w = no_cli_world
  have b: "fst (build_all ?w) = Inr True"
    and ba: "snd (build_all ?w) = [Log ''Skipping build (--skip-build)'']"
    by (simp_all add: build_all_def no_cli_world_def good_world_def)
  have l: "run_cli_local_tests ?w =
     ([\<lparr>tr_name = ''cli_not_found'', tr_passed = JBool False, tr_output = None,
        tr_returncode = None, tr_error = Some (JStr ''CLI executable not found''),
        tr_sql = None\<rparr>],
      [Log ''Running CLI local mode tests...'', Log ''CLI not found''])"
    by (simp add: run_cli_local_tests_def no_cli_world_def good_world_def)
  have s: "start_driver ?w new_harness =
    ((Inr True, new_harness\<lparr>driver_process := Some \<lparr>exited = False, unread = driver_output ?w\<rparr>\<rparr>),
     [Log ''Starting driver...'', Popen, Log ''Waiting for server to start...'',
      Poll False, ProbeConnect True, Log ''Server is ready.''])"
    by (rule good_start [where c = "\<lparr>incoming = [], sends = [], sent = []\<rparr>"])
       (simp_all add: no_cli_world_def good_world_def)
  have r: "remote_attempt ?w = Inr good_server" "json_dumps ?w = bytes_of"
    "json_loads ?w = toy_loads" by (simp_all add: no_cli_world_def good_world_def)
  from good_remote(2) [OF r] obtain rs where rs: "fst (run_remote_tests ?w) = Inr rs" by blast
  with good_remote(1,3) [OF r] have cf: "count_failed rs = 0" "count_passed rs = 6"
    by simp_all
  have rt: "snd (run_remote_tests ?w) =
     [Log ''Running CLI remote mode tests...'', RemoteConnect True,
      RemoteCase ''count_funcs'', RemoteCase ''list_funcs'', RemoteCase ''list_segments'',
      RemoteCase ''list_names'', RemoteCase ''invalid_table'', RemoteCase ''syntax_error'',
      RemoteDisconnect]"
    by (rule good_remote(4) [OF r])
  have out: "driver_output ?w = ''Server running on port 13337''"
    "stops_on_terminate ?w" by (simp_all add: no_cli_world_def good_world_def)
  have lc: "count_failed (fst (run_cli_local_tests ?w)) = 1"
    "count_passed (fst (run_cli_local_tests ?w)) = 0"
    "snd (run_cli_local_tests ?w) = [Log ''Running CLI local mode tests...'', Log ''CLI not found'']"
    by (simp_all add: l count_failed_def count_passed_def)
  show ?thesis
    by (simp add: run_unfold run_body_built [OF b] s rs lc cf before_remote_def ba
        rt stop_driver_def out strip_def is_space_def)
qed

section \<open>Order and cleanup\<close>

lemma sorted_constant: "(\<And>x. x \<in> set xs \<Longrightarrow> x = (c::nat)) \<Longrightarrow> sorted xs"
  by (induction xs) auto

lemma shape_sorted:
  assumes "set ones \<subseteq> {1::nat}" and "set fours \<subseteq> {4}"
    and "xs \<in> {[], ones, ones @ [2, 5], ones @ [2, 3] @ fours @ [5]}"
  shows "sorted xs"
    and "4 \<in> set xs \<longrightarrow> 3 \<in> set xs \<and> 5 \<in> set xs"
    and "2 \<in> set xs \<longrightarrow> 5 \<in> set xs"
proof -
  have c: "\<forall>x\<in>set ones. x = 1" "\<forall>x\<in>set fours. x = 4"
    using assms(1,2) by auto
  have so: "sorted ones" "sorted fours"
    using c by (auto intro!: sorted_constant)
  from assms(3) consider "xs = []" | "xs = ones" | "xs = ones @ [2, 5]"
    | "xs = ones @ [2, 3] @ fours @ [5]" by auto
  then show "sorted xs"
    using so c by cases (fastforce simp: sorted_append)+
  have n: "4 \<notin> set ones" "2 \<notin> set ones" "2 \<notin> set fours"
    using c by fastforce+
  from assms(3) show "4 \<in> set xs \<longrightarrow> 3 \<in> set xs \<and> 5 \<in> set xs"
    using n by auto
  from assms(3) show "2 \<in> set xs \<longrightarrow> 5 \<in> set xs"
    using n by auto
qed

text \<open>
  Claim C6, as the code has it. The local cases of a run are exactly the seven declared
  ones (five single queries, two interactive sessions), each run once and in the order
  declared, when the build succeeded and the CLI executable exists, and none otherwise:
  without the executable \<^verbatim>\<open>run_cli_local_tests\<close> records the one failed result
  \<open>cli_not_found\<close> and returns, and the run goes on to start the server. All the local
  cases of a run come before the server is spawned, and none after the spawn or after
  the report that the server is ready; a server is only spawned after a successful
  build. Every remote case has the report that the server is ready before it, no remote
  case comes after the teardown has begun, and when a remote case was run the teardown
  does follow. With the executable, the results of the local phase are one per case,
  under the case's name.
\<close>

theorem run_order:
  "never_after is_local_case is_spawn (snd (run w new_harness))
   \<and> never_after is_local_case is_ready (snd (run w new_harness))
   \<and> only_after is_remote_case is_ready (snd (run w new_harness))
   \<and> never_after is_remote_case is_teardown (snd (run w new_harness))
   \<and> ((\<exists>a\<in>set (snd (run w new_harness)). is_remote_case a) \<longrightarrow>
        (\<exists>a\<in>set (snd (run w new_harness)). is_teardown a))
   \<and> filter is_local_case (takeWhile (\<lambda>a. \<not> is_spawn a) (snd (run w new_harness)))
       = filter is_local_case (snd (run w new_harness))
   \<and> filter is_local_case (snd (run w new_harness)) =
       (if fst (build_all w) = Inr True \<and> cli_exists w then
          [RunCli ''cli_local_count_funcs'', RunCli ''cli_local_list_funcs'',
           RunCli ''cli_local_list_segments'', RunCli ''cli_local_invalid_table'',
           RunCli ''cli_local_syntax_error'', RunCli ''cli_interactive_tables'',
           RunCli ''cli_interactive_query'']
        else [])
   \<and> (Popen \<in> set (snd (run w new_harness)) \<longrightarrow> fst (build_all w) = Inr True)
   \<and> map tr_name (fst (run_cli_local_tests w)) =
       (if cli_exists w then
          [''cli_local_count_funcs'', ''cli_local_list_funcs'', ''cli_local_list_segments'',
           ''cli_local_invalid_table'', ''cli_local_syntax_error'',
           ''cli_interactive_tables'', ''cli_interactive_query'']
        else [''cli_not_found''])"
proof -
  let ?tr = "snd (run w new_harness)"
  from run_stages [of w] obtain ones fours where
    sh: "set ones \<subseteq> {1}" "set fours \<subseteq> {4}"
      "stages ?tr \<in> {[], ones, ones @ [2, 5], ones @ [2, 3] @ fours @ [5]}"
    by blast
  note s = shape_sorted(1) [OF sh] and m = shape_sorted(2) [OF sh]
  have 1: "never_after is_local_case is_spawn ?tr"
    by (rule never_after_stages [OF s stage_iff(1) stage_iff(2)]) simp_all
  have 2: "never_after is_local_case is_ready ?tr"
    by (rule never_after_stages [OF s stage_iff(1) stage_iff(3)]) simp_all
  have 3: "only_after is_remote_case is_ready ?tr"
    by (rule only_after_stages [OF s stage_iff(4) stage_iff(3)]) (use m in simp_all)
  have 4: "never_after is_remote_case is_teardown ?tr"
    by (rule never_after_stages [OF s stage_iff(4) stage_iff(5)]) simp_all
  have 5: "(\<exists>a\<in>set ?tr. is_remote_case a) \<longrightarrow> (\<exists>a\<in>set ?tr. is_teardown a)"
    using m by (simp add: stage_iff mem_stages)
  have 6: "filter is_local_case (takeWhile (\<lambda>a. \<not> is_spawn a) ?tr) = filter is_local_case ?tr"
    by (rule filter_before [OF 1]) (simp add: stage_iff)
  have 7: "filter is_local_case ?tr =
       (if fst (build_all w) = Inr True \<and> cli_exists w then
          [RunCli ''cli_local_count_funcs'', RunCli ''cli_local_list_funcs'',
           RunCli ''cli_local_list_segments'', RunCli ''cli_local_invalid_table'',
           RunCli ''cli_local_syntax_error'', RunCli ''cli_interactive_tables'',
           RunCli ''cli_interactive_query'']
        else [])"
    by (simp add: run_local_cases run_cli_local_tests_cases(1))
  have 8: "Popen \<in> set ?tr \<longrightarrow> fst (build_all w) = Inr True"
    by (rule impI) (rule spawn_needs_build)
  note 9 = run_cli_local_tests_cases(2) [of w]
  from 1 2 3 4 5 6 7 8 9 show ?thesis by blast
qed

theorem run_order_witness:
  "Popen \<in> set (snd (run good_world new_harness))
   \<and> filter is_local_case (takeWhile (\<lambda>a. \<not> is_spawn a) (snd (run good_world new_harness)))
       = [RunCli ''cli_local_count_funcs'', RunCli ''cli_local_list_funcs'',
          RunCli ''cli_local_list_segments'', RunCli ''cli_local_invalid_table'',
          RunCli ''cli_local_syntax_error'', RunCli ''cli_interactive_tables'',
          RunCli ''cli_interactive_query'']
   \<and> only_after is_remote_case is_ready (snd (run good_world new_harness))
   \<and> never_after is_remote_case is_teardown (snd (run good_world new_harness))
   \<and> RemoteCase ''count_funcs'' \<in> set (snd (run good_world new_harness))
   \<and> (\<exists>a\<in>set (snd (run good_world new_harness)). is_teardown a)
   \<and> Popen \<in> set (snd (run no_cli_world new_harness))
   \<and> fst (build_all no_cli_world) = Inr True
   \<and> filter is_local_case (snd (run no_cli_world new_harness)) = []
   \<and> map tr_name (fst (run_cli_local_tests no_cli_world)) = [''cli_not_found'']
   \<and> filter is_local_case (snd (run broken_build_world new_harness)) = []"
proof -
  note g = run_order [of good_world] and n = run_order [of no_cli_world]
    and k = run_order [of broken_build_world]
  have r: "RemoteCase ''count_funcs'' \<in> set (snd (run good_world new_harness))"
    and p: "Popen \<in> set (snd (run good_world new_harness))"
    by (simp_all add: good_run)
  from r have e: "\<exists>a\<in>set (snd (run good_world new_harness)). is_remote_case a"
    by (rule bexI [rotated]) simp
  have c: "cli_exists good_world" "\<not> cli_exists no_cli_world"
    by (simp_all add: good_world_def no_cli_world_def)
  from g p have b: "fst (build_all good_world) = Inr True" by blast
  have 1: "filter is_local_case (takeWhile (\<lambda>a. \<not> is_spawn a) (snd (run good_world new_harness)))
       = [RunCli ''cli_local_count_funcs'', RunCli ''cli_local_list_funcs'',
          RunCli ''cli_local_list_segments'', RunCli ''cli_local_invalid_table'',
          RunCli ''cli_local_syntax_error'', RunCli ''cli_interactive_tables'',
          RunCli ''cli_interactive_query'']"
    using g b c(1) by simp
  have 2: "only_after is_remote_case is_ready (snd (run good_world new_harness))"
    "never_after is_remote_case is_teardown (snd (run good_world new_harness))"
    "\<exists>a\<in>set (snd (run good_world new_harness)). is_teardown a"
    using g e by blast+
  have q: "Popen \<in> set (snd (run no_cli_world new_harness))"
    by (simp add: no_cli_run)
  with n have 3: "fst (build_all no_cli_world) = Inr True" by blast
  have 4: "filter is_local_case (snd (run no_cli_world new_harness)) = []"
    "map tr_name (fst (run_cli_local_tests no_cli_world)) = [''cli_not_found'']"
    using n c(2) by simp_all
  have 5: "filter is_local_case (snd (run broken_build_world new_harness)) = []"
    using k by (simp add: broken_build)
  from p 1 2 r q 3 4 5 show ?thesis by blast
qed

text \<open>
  Claim C6 as stated fails: in \<open>no_cli_world\<close> the server is spawned and reported
  ready, the six remote cases run, and no local case was executed before that, or at
  all.
\<close>

theorem run_order_counterexample:
  "\<not> cli_exists no_cli_world
   \<and> snd (run no_cli_world new_harness) =
     [Log ''Skipping build (--skip-build)'',
      Log ''Running CLI local mode tests...'', Log ''CLI not found'',
      PrintResults ''CLI LOCAL MODE TESTS (Modes 1 & 2)'' 0 1,
      Log ''Starting driver...'', Popen, Log ''Waiting for server to start...'',
      Poll False, ProbeConnect True, Log ''Server is ready.'',
      Log ''Running CLI remote mode tests...'', RemoteConnect True,
      RemoteCase ''count_funcs'', RemoteCase ''list_funcs'', RemoteCase ''list_segments'',
      RemoteCase ''list_names'', RemoteCase ''invalid_table'', RemoteCase ''syntax_error'',
      RemoteDisconnect,
      PrintResults ''CLI REMOTE MODE TESTS (Mode 3)'' 6 0, PrintTotal 6 1,
      Log ''Stopping driver...'', Terminate, Reaped,
      ReadOutput ''Server running on port 13337'',
      PrintDriverOutput ''Server running on port 13337'']
   \<and> Popen \<in> set (snd (run no_cli_world new_harness))
   \<and> filter is_local_case (snd (run no_cli_world new_harness)) = []
   \<and> fst (fst (run no_cli_world new_harness)) = Inr 1"
  by (simp add: no_cli_run) (simp add: no_cli_world_def)

text \<open>
  Claim C7. Whatever the environment does, and so on each way out of the
  \<^verbatim>\<open>try\<close> block (the build failed, the server did not become ready, an exception,
  the grand total), the run ends with \<^verbatim>\<open>stop_driver\<close>: the harness holds no process
  afterwards, the outcome is the block's, and a server process that was spawned has been
  terminated and is not running.
\<close>

theorem server_always_stopped:
  "driver_process (snd (fst (run w h))) = None
   \<and> fst (fst (run w h)) = fst (fst (run_body w h))
   \<and> snd (run w h) = snd (run_body w h) @ snd (stop_driver w (snd (fst (run_body w h))))
   \<and> \<not> server_running False (snd (run w new_harness))
   \<and> (Popen \<in> set (snd (run w new_harness)) \<longrightarrow> Terminate \<in> set (snd (run w new_harness)))"
proof -
  let ?tr = "snd (run w new_harness)"
  from run_stages [of w] obtain ones fours where
    sh: "set ones \<subseteq> {1}" "set fours \<subseteq> {4}"
      "stages ?tr \<in> {[], ones, ones @ [2, 5], ones @ [2, 3] @ fours @ [5]}"
    by blast
  have "Popen \<in> set ?tr \<longrightarrow> Terminate \<in> set ?tr"
  proof
    assume "Popen \<in> set ?tr"
    then have "2 \<in> set (stages ?tr)" by (auto simp: mem_stages intro: bexI [of _ Popen])
    with shape_sorted(3) [OF sh] have "5 \<in> set (stages ?tr)" by simp
    then obtain a where a: "a \<in> set ?tr" "stage a = 5" by (auto simp: mem_stages)
    have "a = Terminate" using a(2) by (cases a) (simp_all split: if_splits)
    with a(1) show "Terminate \<in> set ?tr" by simp
  qed
  then show ?thesis
    by (simp add: run_unfold stop_driver_trace run_running [unfolded run_unfold, simplified])
qed

theorem server_always_stopped_witness:
  "fst (fst (run good_world new_harness)) = Inr 0
   \<and> Terminate \<in> set (snd (run good_world new_harness))
   \<and> \<not> server_running False (snd (run good_world new_harness))
   \<and> fst (fst (run broken_build_world new_harness)) = Inr 2
   \<and> driver_process (snd (fst (run broken_build_world new_harness))) = None
   \<and> fst (fst (run crash_world new_harness)) = Inr 3
   \<and> Terminate \<in> set (snd (run crash_world new_harness))
   \<and> fst (fst (run bare_world new_harness)) = Inl (Exc KeyError (quoted ''rows''))
   \<and> Terminate \<in> set (snd (run bare_world new_harness))
   \<and> \<not> server_running False (snd (run bare_world new_harness))"
proof -
  have bc: "fst (build_all crash_world) = Inr True"
    by (simp add: build_all_def crash_world_def good_world_def)
  have bb: "fst (build_all bare_world) = Inr True"
    by (simp add: build_all_def bare_world_def good_world_def)
  have sb: "fst (fst (start_driver bare_world new_harness)) = Inr True"
    by (subst good_start [where c = "\<lparr>incoming = [], sends = [], sent = []\<rparr>"])
       (simp_all add: bare_world_def good_world_def)
  have rb: "fst (run_remote_tests bare_world) = Inl (Exc KeyError (quoted ''rows''))"
    by (subst bare_remote) (simp_all add: bare_world_def good_world_def)
  have bg: "fst (build_all good_world) = Inr True" by (simp add: good_build)
  have pg: "Popen \<in> set (snd (run good_world new_harness))"
    by (rule spawned_in_run [OF bg]) (simp_all add: good_world_def)
  have pc: "Popen \<in> set (snd (run crash_world new_harness))"
    by (rule spawned_in_run [OF bc]) (simp_all add: crash_world_def good_world_def)
  have pb: "Popen \<in> set (snd (run bare_world new_harness))"
    by (rule spawned_in_run [OF bb]) (simp_all add: bare_world_def good_world_def)
  have og: "fst (fst (run_body good_world new_harness)) = Inr 0"
    using good_run by (simp add: run_unfold)
  have ob: "fst (fst (run_body broken_build_world new_harness)) = Inr 2"
    by (simp add: body_outcome broken_build)
  have oc: "fst (fst (run_body crash_world new_harness)) = Inr 3"
    by (simp add: body_outcome bc crash_start)
  have oe: "fst (fst (run_body bare_world new_harness)) = Inl (Exc KeyError (quoted ''rows''))"
    by (simp add: body_outcome bb sb rb)
  note g = server_always_stopped [of good_world new_harness]
    and k = server_always_stopped [of broken_build_world new_harness]
    and c = server_always_stopped [of crash_world new_harness]
    and e = server_always_stopped [of bare_world new_harness]
  have 1: "fst (fst (run good_world new_harness)) = Inr 0"
    using g [THEN conjunct2, THEN conjunct1] og by simp
  have 2: "Terminate \<in> set (snd (run good_world new_harness))"
    "\<not> server_running False (snd (run good_world new_harness))"
    using g pg by blast+
  have 3: "fst (fst (run broken_build_world new_harness)) = Inr 2"
    using k [THEN conjunct2, THEN conjunct1] ob by simp
  have 4: "driver_process (snd (fst (run broken_build_world new_harness))) = None"
    using k by blast
  have 5: "fst (fst (run crash_world new_harness)) = Inr 3"
    using c [THEN conjunct2, THEN conjunct1] oc by simp
  have 6: "Terminate \<in> set (snd (run crash_world new_harness))"
    using c pc by blast
  have 7: "fst (fst (run bare_world new_harness)) = Inl (Exc KeyError (quoted ''rows''))"
    using e [THEN conjunct2, THEN conjunct1] oe by simp
  have 8: "Terminate \<in> set (snd (run bare_world new_harness))"
    "\<not> server_running False (snd (run bare_world new_harness))"
    using e pb by blast+
  from 1 2 3 4 5 6 7 8 show ?thesis by blast
qed


section \<open>Exit codes\<close>

text \<open>
  Claim C4, as the code has it. With the SDK variable set and the test database there,
  the exit code is 2 exactly when the build reported failure; 3 exactly when the build
  succeeded and \<^verbatim>\<open>start_driver\<close> reported failure, whatever the local cases did; 0
  exactly when the build succeeded, the server became ready and no case of either
  group failed; 1 exactly when the run reached the grand total with a failed case, or
  an exception reached the handler of \<^verbatim>\<open>main\<close>. No other exit code occurs.
\<close>

theorem exit_code_meaning:
  assumes "idasdk_set w" and "test_db_exists w"
  shows "((fst (main w) = 2) = (fst (build_all w) = Inr False))
   \<and> ((fst (main w) = 3) =
        (fst (build_all w) = Inr True \<and> fst (fst (start_driver w new_harness)) = Inr False))
   \<and> ((fst (main w) = 0) =
        (fst (build_all w) = Inr True \<and> fst (fst (start_driver w new_harness)) = Inr True \<and>
         (\<exists>rs. fst (run_remote_tests w) = Inr rs \<and>
               count_failed (fst (run_cli_local_tests w)) = 0 \<and> count_failed rs = 0)))
   \<and> ((fst (main w) = 1) =
        ((\<exists>e. fst (fst (run w new_harness)) = Inl e) \<or>
         (fst (build_all w) = Inr True \<and> fst (fst (start_driver w new_harness)) = Inr True \<and>
          (\<exists>rs. fst (run_remote_tests w) = Inr rs \<and>
                0 < count_failed (fst (run_cli_local_tests w)) + count_failed rs))))
   \<and> fst (main w) \<in> {0, 1, 2, 3}"
proof -
  note m = main_code [OF assms] and o = body_outcome [of w new_harness]
  have r: "fst (fst (run w new_harness)) = fst (fst (run_body w new_harness))"
    by (simp add: run_unfold)
  show ?thesis
  proof (cases "fst (build_all w)")
    case (Inl e)
    then show ?thesis by (simp add: m o r)
  next
    case (Inr ok)
    note b = this
    show ?thesis
    proof (cases ok)
      case False
      with b show ?thesis by (simp add: m o r)
    next
      case True
      note t = this
      show ?thesis
      proof (cases "fst (fst (start_driver w new_harness))")
        case (Inl e)
        with b t show ?thesis by (simp add: m o r)
      next
        case (Inr ready)
        note s = this
        show ?thesis
        proof (cases ready)
          case False
          with b t s show ?thesis by (simp add: m o r)
        next
          case True
          with b t s show ?thesis
            by (cases "fst (run_remote_tests w)") (simp_all add: m o r)
        qed
      qed
    qed
  qed
qed

theorem exit_code_meaning_witness:
  "fst (main good_world) = 0 \<and> fst (main broken_build_world) = 2
   \<and> fst (main crash_world) = 3 \<and> fst (main bare_world) = 1"
proof -
  have g: "idasdk_set good_world" "test_db_exists good_world"
    and bb: "idasdk_set broken_build_world" "test_db_exists broken_build_world"
    and c: "idasdk_set crash_world" "test_db_exists crash_world"
    and ba: "idasdk_set bare_world" "test_db_exists bare_world"
    by (simp_all add: good_world_def broken_build_world_def crash_world_def bare_world_def)
  have 0: "fst (main good_world) = 0"
  proof -
    have r: "remote_attempt good_world = Inr good_server" "json_dumps good_world = bytes_of"
      "json_loads good_world = toy_loads" by (simp_all add: good_world_def)
    from good_remote(2) [OF r] obtain rs where rs: "fst (run_remote_tests good_world) = Inr rs"
      by blast
    with good_remote(1) [OF r] have cf: "count_failed rs = 0" by simp
    have l: "count_failed (fst (run_cli_local_tests good_world)) = 0"
      by (rule good_local_count; simp add: good_world_def)
    have s: "fst (fst (start_driver good_world new_harness)) = Inr True"
      by (subst good_start [where c = "\<lparr>incoming = [], sends = [], sent = []\<rparr>"])
         (simp_all add: good_world_def)
    from exit_code_meaning [OF g] rs cf l s show ?thesis by (simp add: good_build)
  qed
  have 2: "fst (main broken_build_world) = 2"
    using exit_code_meaning [OF bb] by (simp add: broken_build)
  have 3: "fst (main crash_world) = 3"
  proof -
    have "fst (build_all crash_world) = Inr True"
      by (simp add: build_all_def crash_world_def good_world_def)
    with exit_code_meaning [OF c] show ?thesis by (simp add: crash_start)
  qed
  have 1: "fst (main bare_world) = 1"
  proof -
    have b: "fst (build_all bare_world) = Inr True"
      by (simp add: build_all_def bare_world_def good_world_def)
    have s: "fst (fst (start_driver bare_world new_harness)) = Inr True"
      by (subst good_start [where c = "\<lparr>incoming = [], sends = [], sent = []\<rparr>"])
         (simp_all add: bare_world_def good_world_def)
    have r: "fst (run_remote_tests bare_world) = Inl (Exc KeyError (quoted ''rows''))"
      by (subst bare_remote) (simp_all add: bare_world_def good_world_def)
    have "fst (fst (run bare_world new_harness)) = Inl (Exc KeyError (quoted ''rows''))"
      by (simp add: run_unfold body_outcome b s r)
    with exit_code_meaning [OF ba] show ?thesis by simp
  qed
  from 0 1 2 3 show ?thesis by simp
qed

text \<open>
  Claim C4 as stated fails: in \<open>stalled_world\<close> local cases fail, so the exit code would
  have to be 1, and the server executable is missing, so it would have to be 3. The
  code returns 3.
\<close>

theorem exit_code_counterexample:
  "0 < count_failed (fst (run_cli_local_tests stalled_world))
   \<and> fst (fst (start_driver stalled_world new_harness)) = Inr False
   \<and> fst (main stalled_world) = 3 \<and> fst (main stalled_world) \<noteq> 1"
proof -
  have i: "idasdk_set stalled_world" "test_db_exists stalled_world"
    "\<not> driver_exists stalled_world"
    by (simp_all add: stalled_world_def good_world_def)
  have b: "fst (build_all stalled_world) = Inr True"
    by (simp add: build_all_def stalled_world_def good_world_def)
  have s: "fst (fst (start_driver stalled_world new_harness)) = Inr False"
    by (simp add: start_driver_absent i)
  have "fst (main stalled_world) = 3"
    by (simp add: main_code [OF i(1,2)] body_outcome b s)
  with s stalled_local(2) show ?thesis by simp
qed

section \<open>The server's output\<close>




section \<open>A server that dies, a predicate that raises\<close>

text \<open>
  Claim C9. An iteration of the probe whose poll finds the server process gone returns
  failure at once: it reads the process's output and logs it, and neither connects nor
  sleeps. So when the first \<open>k\<close> iterations find the process alive and nothing
  listening, and the next poll, still within the deadline, finds it gone,
  \<^verbatim>\<open>start_driver\<close> returns \<open>False\<close> after exactly \<open>k\<close> sleeps, with the captured
  output in its last log line.
\<close>

theorem probe_reports_exit:
  "(now < probe_timeout \<and> exited_at w i \<longrightarrow>
      probe_loop w i now p =
        ((False, p\<lparr>exited := True, unread := []\<rparr>),
         [Poll True, ReadOutput (unread p),
          Log (''Driver exited unexpectedly:'' @ newline @ unread p)]))
   \<and> (driver_exists w \<and> popen w = None \<and>
       (\<forall>j<k. \<not> exited_at w j \<and> isl (probe_attempt w j)) \<and> exited_at w k \<and>
       elapsed w 0 k < probe_timeout \<longrightarrow>
      start_driver w h =
        ((Inr False, h\<lparr>driver_process := Some \<lparr>exited = True, unread = []\<rparr>\<rparr>),
         [Log ''Starting driver...'', Popen, Log ''Waiting for server to start...'']
         @ concat (replicate k [Poll False, ProbeConnect False, Sleep])
         @ [Poll True, ReadOutput (driver_output w),
            Log (''Driver exited unexpectedly:'' @ newline @ driver_output w)]))"
proof (intro conjI impI)
  assume "now < probe_timeout \<and> exited_at w i"
  then show "probe_loop w i now p =
        ((False, p\<lparr>exited := True, unread := []\<rparr>),
         [Poll True, ReadOutput (unread p),
          Log (''Driver exited unexpectedly:'' @ newline @ unread p)])"
    by (simp add: probe_loop_exit)
next
  assume a: "driver_exists w \<and> popen w = None \<and>
       (\<forall>j<k. \<not> exited_at w j \<and> isl (probe_attempt w j)) \<and> exited_at w k \<and>
       elapsed w 0 k < probe_timeout"
  then have 1: "\<forall>j<k. \<not> exited_at w (0 + j) \<and> isl (probe_attempt w (0 + j))"
    and 2: "exited_at w (0 + k)" and 3: "0 + elapsed w 0 k < probe_timeout"
    by simp_all
  from a show "start_driver w h =
        ((Inr False, h\<lparr>driver_process := Some \<lparr>exited = True, unread = []\<rparr>\<rparr>),
         [Log ''Starting driver...'', Popen, Log ''Waiting for server to start...'']
         @ concat (replicate k [Poll False, ProbeConnect False, Sleep])
         @ [Poll True, ReadOutput (driver_output w),
            Log (''Driver exited unexpectedly:'' @ newline @ driver_output w)])"
    by (simp add: start_driver_spawned probe_loop_exit_later [OF 1 2 3])
qed

theorem probe_reports_exit_witness:
  "start_driver crash_world new_harness =
     ((Inr False, new_harness\<lparr>driver_process := Some \<lparr>exited = True, unread = []\<rparr>\<rparr>),
      [Log ''Starting driver...'', Popen, Log ''Waiting for server to start...'',
       Poll False, ProbeConnect False, Sleep, Poll False, ProbeConnect False, Sleep,
       Poll True, ReadOutput ''fatal: cannot open database'',
       Log (''Driver exited unexpectedly:'' @ newline @ ''fatal: cannot open database'')])
   \<and> probe_loop crash_world 2 1000 \<lparr>exited = False, unread = ''fatal: cannot open database''\<rparr>
     = ((False, \<lparr>exited = True, unread = []\<rparr>),
        [Poll True, ReadOutput ''fatal: cannot open database'',
         Log (''Driver exited unexpectedly:'' @ newline @ ''fatal: cannot open database'')])"
  using probe_reports_exit [where w = crash_world and k = 2 and h = new_harness and i = 2
      and now = 1000 and p = "\<lparr>exited = False, unread = ''fatal: cannot open database''\<rparr>"]
  by (simp add: crash_world_def good_world_def probe_timeout_def numeral_2_eq_2)

lemma local_exception_recorded:
  assumes "cli w call = Inr (out, rc)" and "lt_check t out rc = Inl e"
  shows "run_and_check w t call prev = (handle_local (lt_name t) e, Some rc)"
    and "tr_passed (handle_local (lt_name t) e) = JBool False"
    and "exc_cls e \<noteq> TimeoutExpired \<Longrightarrow>
         tr_error (handle_local (lt_name t) e) = Some (JStr (exc_text e))"
  using assms by (simp_all add: run_and_check_def handle_local_def)

lemma cli_local_loop_length: "length (fst (cli_local_loop w ts prev)) = length ts"
proof (induction ts arbitrary: prev)
  case Nil
  show ?case by simp
next
  case (Cons t ts)
  obtain r prev' acts where c: "run_local_case w t prev = ((r, prev'), acts)"
    by (cases "run_local_case w t prev") auto
  obtain rs acts' where l: "cli_local_loop w ts prev' = (rs, acts')"
    by (cases "cli_local_loop w ts prev'")
  from Cons.IH [of prev'] l have "length rs = length ts" by simp
  then show ?case by (simp add: c l)
qed

text \<open>
  Claim C5 fails in remote mode. In \<open>bare_world\<close> the server answers the first remote
  case with \<open>{"success": true}\<close>; the predicate of that case subscripts the response
  with \<open>'rows'\<close> and raises \<open>KeyError\<close>. No result is recorded for the case: the
  exception leaves \<^verbatim>\<open>run_basic_tests\<close> and \<^verbatim>\<open>run_remote_tests\<close>, the other five
  remote cases are never run, and the process ends with exit code 1 through the handler
  of \<^verbatim>\<open>main\<close>.
\<close>

theorem remote_predicate_exception_aborts:
  "run_remote_tests bare_world =
     (Inl (Exc KeyError (quoted ''rows'')),
      [Log ''Running CLI remote mode tests...'', RemoteConnect True,
       RemoteCase ''count_funcs''])
   \<and> fst (fst (run bare_world new_harness)) = Inl (Exc KeyError (quoted ''rows''))
   \<and> filter is_remote_case (snd (run bare_world new_harness)) = [RemoteCase ''count_funcs'']
   \<and> fst (main bare_world) = 1"
proof -
  let ?w = bare_world
  have i: "idasdk_set ?w" "test_db_exists ?w" by (simp_all add: bare_world_def good_world_def)
  have b: "build_all ?w = (Inr True, [Log ''Skipping build (--skip-build)''])"
    by (simp add: build_all_def bare_world_def good_world_def)
  have lt: "snd (run_cli_local_tests ?w) =
      [Log ''Running CLI local mode tests...'', RunCli ''cli_local_count_funcs'',
       RunCli ''cli_local_list_funcs'', RunCli ''cli_local_list_segments'',
       RunCli ''cli_local_invalid_table'', RunCli ''cli_local_syntax_error'',
       RunCli ''cli_interactive_tables'', RunCli ''cli_interactive_query'']"
    by (rule good_local_count(3); simp add: bare_world_def good_world_def)
  have s: "start_driver ?w new_harness =
    ((Inr True, new_harness\<lparr>driver_process := Some \<lparr>exited = False, unread = driver_output ?w\<rparr>\<rparr>),
     [Log ''Starting driver...'', Popen, Log ''Waiting for server to start...'',
      Poll False, ProbeConnect True, Log ''Server is ready.''])"
    by (rule good_start [where c = "\<lparr>incoming = [], sends = [], sent = []\<rparr>"])
       (simp_all add: bare_world_def good_world_def)
  have r: "run_remote_tests ?w =
     (Inl (Exc KeyError (quoted ''rows'')),
      [Log ''Running CLI remote mode tests...'', RemoteConnect True,
       RemoteCase ''count_funcs''])"
    by (rule bare_remote) (simp_all add: bare_world_def good_world_def)
  have o: "fst (fst (run ?w new_harness)) = Inl (Exc KeyError (quoted ''rows''))"
    by (simp add: run_unfold body_outcome b s r)
  have t: "filter is_remote_case (snd (run ?w new_harness)) = [RemoteCase ''count_funcs'']"
    by (simp add: run_unfold run_body_built b s r before_remote_def lt stop_driver_def)
  have m: "fst (main ?w) = 1"
    using o by (simp add: main_code [OF i] run_unfold)
  from r o t m show ?thesis by simp
qed

end
